theory Spec2Isabelle
  imports Main
begin

section \<open>JavaScript primitives used by the converter\<close>

text \<open>
  The remainder operator \<^verbatim>\<open>%\<close> on integers truncates towards zero: the result has
  the sign of the dividend.
\<close>

definition js_rem :: "int \<Rightarrow> int \<Rightarrow> int" where
  "js_rem a b = sgn a * (\<bar>a\<bar> mod \<bar>b\<bar>)"

text \<open>
  \<^verbatim>\<open>Array.prototype.indexOf\<close>: the first position holding the element, \<open>-1\<close> when
  there is none.
\<close>

fun indexOfFrom :: "int \<Rightarrow> 'a list \<Rightarrow> 'a \<Rightarrow> int" where
  "indexOfFrom i [] x = - 1"
| "indexOfFrom i (y # ys) x = (if y = x then i else indexOfFrom (i + 1) ys x)"

definition indexOf :: "'a list \<Rightarrow> 'a \<Rightarrow> int" where
  "indexOf xs x = indexOfFrom 0 xs x"

text \<open>
  An array read \<^verbatim>\<open>xs[i]\<close>: the element inside the bounds, \<^verbatim>\<open>undefined\<close> (here
  \<open>None\<close>) outside of them.
\<close>

definition js_get :: "'a list \<Rightarrow> int \<Rightarrow> 'a option" where
  "js_get xs i = (if 0 \<le> i \<and> i < int (length xs) then Some (xs ! nat i) else None)"

text \<open>
  A \<^verbatim>\<open>Date\<close> is its time value, the milliseconds since the epoch. ECMAScript defines
  \<open>Day(t) = floor(t / msPerDay)\<close> and \<open>WeekDay(t) = (Day(t) + 4) mod 7\<close>, with 0 for
  Sunday; \<^verbatim>\<open>getUTCDay\<close> is \<open>WeekDay(t)\<close> and \<^verbatim>\<open>getDay\<close> is
  \<open>WeekDay(LocalTime(t))\<close>, where \<open>LocalTime(t) = t + LocalTZA(t, true)\<close> is the
  clock of the machine that runs the code. The local offset is the host's, so it is a
  parameter here. The time values met here are numbers: ical.js rejects a date or time
  with a field that is not an integer before a \<^verbatim>\<open>Date\<close> is built from it.
\<close>

definition msPerDay :: int where
  "msPerDay = 86400000"

definition WeekDay :: "int \<Rightarrow> int" where
  "WeekDay t = (t div msPerDay + 4) mod 7"

definition getUTCDay :: "int \<Rightarrow> int" where
  "getUTCDay t = WeekDay t"

definition getDay :: "(int \<Rightarrow> int) \<Rightarrow> int \<Rightarrow> int" where
  "getDay localTZA t = WeekDay (t + localTZA t)"

section \<open>The weekday rule adjuster (icsToOFC, recurring branch)\<close>

definition DEFAULT_ZONE :: string where
  "DEFAULT_ZONE = ''Asia/Seoul''"

definition WEEK_DAYS :: "string list" where
  "WEEK_DAYS = [''MO'', ''TU'', ''WE'', ''TH'', ''FR'', ''SA'', ''SU'']"

text \<open>
  A BYDAY token is a JavaScript value: a string, or \<^verbatim>\<open>undefined\<close> (\<open>None\<close>) when it
  was read from outside an array. The recurrence value of ical.js keeps its rule parts in
  the dictionary \<^verbatim>\<open>parts\<close>, each part an array of tokens; the rest of the rule
  (frequency, interval, count, ...) is not touched by the converter.
\<close>

type_synonym token = "string option"

record recur =
  freq :: string
  parts :: "string \<rightharpoonup> token list"

text \<open>
  \<^verbatim>\<open>var day_diff = input.startDate.toJSDate().getUTCDay() - input.startDate.toJSDate().getDay();\<close>
\<close>

definition day_diff :: "(int \<Rightarrow> int) \<Rightarrow> int \<Rightarrow> int" where
  "day_diff localTZA t = getUTCDay t - getDay localTZA t"

text \<open>
  The body of the \<^verbatim>\<open>map\<close> callback:
  \<^verbatim>\<open>var wi = (WEEK_DAYS.indexOf(p) + day_diff + 7) % 7; return WEEK_DAYS[wi];\<close>
\<close>

definition adjustIndex :: "int \<Rightarrow> token \<Rightarrow> int" where
  "adjustIndex d p = js_rem (indexOf (map Some WEEK_DAYS) p + d + 7) 7"

definition adjustToken :: "int \<Rightarrow> token \<Rightarrow> token" where
  "adjustToken d p = js_get WEEK_DAYS (adjustIndex d p)"

text \<open>
  \<^verbatim>\<open>if (day_diff != 0) { var fv = ...; if (fv.parts["BYDAY"]) { fv.parts["BYDAY"] = fv.parts["BYDAY"].map(...) } }\<close>
  An array is truthy even when it is empty, so only an absent part skips the rewrite.
\<close>

definition adjustRule :: "int \<Rightarrow> recur \<Rightarrow> recur" where
  "adjustRule d fv =
     (if d \<noteq> 0 then
        (case parts fv ''BYDAY'' of
           None \<Rightarrow> fv
         | Some ps \<Rightarrow> fv\<lparr>parts := (parts fv)(''BYDAY'' \<mapsto> map (adjustToken d) ps)\<rparr>)
      else fv)"

text \<open>
  The day shift in the words of the specification: modulo 7, from the two weekdays.
\<close>

definition dayShift :: "(int \<Rightarrow> int) \<Rightarrow> int \<Rightarrow> int" where
  "dayShift localTZA t = (getUTCDay t - getDay localTZA t) mod 7"

section \<open>Library values: times and events of ical.js, date-times of luxon\<close>

text \<open>
  An \<^verbatim>\<open>ical.Time\<close> is known to the converter through what it reads from it: the flag
  \<^verbatim>\<open>isDate\<close>, the property \<^verbatim>\<open>timezone\<close> (the TZID parameter, the marker Z, or nothing),
  the text \<^verbatim>\<open>toString()\<close>, the epoch seconds \<^verbatim>\<open>toUnixTime()\<close> and the time value of
  the \<^verbatim>\<open>Date\<close> that \<^verbatim>\<open>toJSDate()\<close> builds (\<open>None\<close> when the call throws).
  \<^verbatim>\<open>utcOffset()\<close>, the offset in seconds of the time's own zone, is part of the library's
  value but is never read by the converter.
\<close>

record ical_Time =
  isDate :: bool
  timezone :: "string option"
  toString :: string
  toUnixTime :: int
  toJSDate :: "int option"
  utcOffset :: int

text \<open>
  An \<^verbatim>\<open>ical.Event\<close>, again as read by the converter. \<open>startDate\<close> and \<open>endDate\<close> are
  \<open>None\<close> for \<^verbatim>\<open>null\<close>; \<open>rrule\<close> is the value of the first \<^verbatim>\<open>rrule\<close> property, \<open>None\<close>
  when the component has none (\<^verbatim>\<open>isRecurring()\<close> also holds for a component with only
  an \<^verbatim>\<open>rdate\<close>); \<open>dtend\<close> and \<open>duration\<close> tell whether the component has such a property.
\<close>

record ical_Event =
  uid :: string
  summary :: string
  isRecurring :: bool
  recurrenceId :: "ical_Time option"
  startDate :: "ical_Time option"
  endDate :: "ical_Time option"
  exdate :: "ical_Time list"
  rrule :: "recur option"
  dtend :: bool
  duration :: bool

text \<open>The two object literals that icsToOFC returns, tagged by their \<^verbatim>\<open>type\<close> field.\<close>

datatype OFCEvent =
    is_rrule: RRuleEvent (title: string) (ofc_id: string) (ofc_rrule: string)
      (skipDates: "string list") (ofc_startDate: string) (allDay: bool)
      (startTime: "string option") (endTime: "string option")
  | is_single: SingleEvent (ofc_id: string) (title: string) (date: string)
      (ofc_endDate: "string option") (allDay: bool)
      (startTime: "string option") (endTime: "string option")

datatype error = ParserError | TypeError | RRuleError

text \<open>
  A VTIMEZONE component and the zone object built from it; the process-wide table of
  \<^verbatim>\<open>ical.TimezoneService\<close>; a VEVENT component, whose times are resolved against that
  table when the event is read; and the parsed calendar.
\<close>

record vtimezone =
  tzid :: string
  tzdata :: string

type_synonym registry = "string \<rightharpoonup> vtimezone"

type_synonym vevent = "registry \<Rightarrow> ical_Event"

record component =
  vtimezones :: "vtimezone list"
  vevents :: "vevent list"

text \<open>
  What the converter takes from outside: the host's local offset (milliseconds, by time
  value), luxon's ISO parser and printers (the time value of
  \<^verbatim>\<open>DateTime.fromISO(text, {zone})\<close>; \<^verbatim>\<open>toISODate()\<close> and \<^verbatim>\<open>toISOTime(...)\<close> of a
  time value in a zone; the TypeScript signatures declare strings), the round trip of a
  recurrence value through \<^verbatim>\<open>toString\<close>, \<^verbatim>\<open>rrulestr\<close> and \<^verbatim>\<open>toString\<close>, the
  validator of the event schema (\<open>None\<close>: rejected) and the parser \<^verbatim>\<open>ical.parse\<close>.
\<close>

record env =
  localTZA :: "int \<Rightarrow> int"
  parseISO :: "string \<Rightarrow> string \<Rightarrow> int"
  isoDate :: "int \<Rightarrow> string \<Rightarrow> string"
  isoTime :: "int \<Rightarrow> string \<Rightarrow> string"
  rrulestr :: "recur \<Rightarrow> error + string"
  validateEvent :: "OFCEvent \<Rightarrow> OFCEvent option"
  parse :: "string \<Rightarrow> error + component"

text \<open>A luxon \<^verbatim>\<open>DateTime\<close>: an instant and the zone it is shown in.\<close>

record DateTime =
  ts :: int
  zone :: string

definition fromSeconds :: "int \<Rightarrow> string \<Rightarrow> DateTime" where
  "fromSeconds s z = \<lparr>ts = s * 1000, zone = z\<rparr>"

definition fromISO :: "env \<Rightarrow> string \<Rightarrow> string \<Rightarrow> DateTime" where
  "fromISO E text z = \<lparr>ts = parseISO E text z, zone = z\<rparr>"

definition setZone :: "DateTime \<Rightarrow> string \<Rightarrow> DateTime" where
  "setZone t z = t\<lparr>zone := z\<rparr>"

definition toISODate :: "env \<Rightarrow> DateTime \<Rightarrow> string" where
  "toISODate E t = isoDate E (ts t) (zone t)"

definition toISOTime :: "env \<Rightarrow> DateTime \<Rightarrow> string" where
  "toISOTime E t = isoTime E (ts t) (zone t)"

section \<open>The time normalizer\<close>

definition getDate :: "env \<Rightarrow> ical_Time \<Rightarrow> string" where
  "getDate E t = toISODate E (fromSeconds (toUnixTime t) DEFAULT_ZONE)"

text \<open>\<^verbatim>\<open>!tzone\<close> holds for \<^verbatim>\<open>undefined\<close> and for the empty string.\<close>

definition zoneOrDefault :: "string option \<Rightarrow> string" where
  "zoneOrDefault tzone =
     (let tzone1 = (case tzone of None \<Rightarrow> DEFAULT_ZONE
                    | Some z \<Rightarrow> if z = [] then DEFAULT_ZONE else z)
      in if tzone1 = ''Z'' then ''UTC'' else tzone1)"

definition getDateL :: "env \<Rightarrow> string \<Rightarrow> string option \<Rightarrow> string" where
  "getDateL E tstr tzone =
     (let t = fromISO E tstr (zoneOrDefault tzone)
      in toISODate E (setZone t DEFAULT_ZONE))"

definition getTime :: "env \<Rightarrow> ical_Time \<Rightarrow> string" where
  "getTime E t =
     (if isDate t then ''00:00''
      else toISOTime E (fromSeconds (toUnixTime t) DEFAULT_ZONE))"

definition getTimeL :: "env \<Rightarrow> string \<Rightarrow> string option \<Rightarrow> string" where
  "getTimeL E tstr tzone =
     (let t = fromISO E tstr (zoneOrDefault tzone)
      in toISOTime E (setZone t DEFAULT_ZONE))"

section \<open>The event builder\<close>

definition specifiesEnd :: "ical_Event \<Rightarrow> bool" where
  "specifiesEnd iCalEvent = (dtend iCalEvent \<or> duration iCalEvent)"

text \<open>
  Reading a property of \<^verbatim>\<open>null\<close> throws a TypeError, and so does a \<^verbatim>\<open>toJSDate\<close> that
  fails; an error of \<^verbatim>\<open>rrulestr\<close> passes through.
\<close>

definition icsToOFC :: "env \<Rightarrow> ical_Event \<Rightarrow> error + OFCEvent" where
  "icsToOFC E input =
     (case startDate input of
        None \<Rightarrow> Inl TypeError
      | Some sd \<Rightarrow>
          if isRecurring input then
            (let allDay = isDate sd;
                 exdates = map (\<lambda>exdate. getDateL E (toString exdate) (timezone exdate))
                               (exdate input)
             in case toJSDate sd of
                  None \<Rightarrow> Inl TypeError
                | Some t \<Rightarrow>
                   (case rrule input of
                      None \<Rightarrow> Inl TypeError
                    | Some fv \<Rightarrow>
                       (case rrulestr E (adjustRule (day_diff (localTZA E) t) fv) of
                          Inl err \<Rightarrow> Inl err
                        | Inr rr \<Rightarrow>
                            if allDay then
                              Inr (RRuleEvent (summary input)
                                     (''ics::'' @ uid input @ ''::'' @ getDate E sd @ ''::recurring'')
                                     rr exdates
                                     (getDateL E (toString sd) (timezone sd))
                                     True None None)
                            else
                              (case endDate input of
                                 None \<Rightarrow> Inl TypeError
                               | Some ed \<Rightarrow>
                                   Inr (RRuleEvent (summary input)
                                          (''ics::'' @ uid input @ ''::'' @ getDate E sd @ ''::recurring'')
                                          rr exdates
                                          (getDateL E (toString sd) (timezone sd))
                                          False
                                          (Some (getTimeL E (toString sd) (timezone sd)))
                                          (Some (getTimeL E (toString ed) (timezone sd))))))))
          else
            (let date = getDateL E (toString sd) (timezone sd);
                 endDate' =
                   (case endDate input of
                      None \<Rightarrow> None
                    | Some ed \<Rightarrow>
                        if specifiesEnd input
                        then Some (getDateL E (toString ed) (timezone ed)) else None);
                 allDay = isDate sd
             in if allDay then
                  Inr (SingleEvent (''ics::'' @ uid input @ ''::'' @ date @ ''::single'')
                         (summary input) date
                         (if Some date \<noteq> endDate' then endDate' else None)
                         True None None)
                else
                  (case endDate input of
                     None \<Rightarrow> Inl TypeError
                   | Some ed \<Rightarrow>
                       Inr (SingleEvent (''ics::'' @ uid input @ ''::'' @ date @ ''::single'')
                              (summary input) date
                              (if Some date \<noteq> endDate' then endDate' else None)
                              False
                              (Some (getTimeL E (toString sd) (timezone sd)))
                              (Some (getTimeL E (toString ed) (timezone sd)))))))"

section \<open>JavaScript objects used as dictionaries\<close>

text \<open>
  An ordinary object keeps its own string keys in creation order, but enumerates its
  array-index keys first, in ascending numeric order (OrdinaryOwnPropertyKeys). A key is
  an array index when it is the canonical decimal text of an integer below \<open>2^32 - 1\<close>.
  The object is kept here as the list of its properties in creation order.
\<close>

definition digitVal :: "char \<Rightarrow> int" where
  "digitVal c = indexOf ''0123456789'' c"

definition decimal :: "string \<Rightarrow> int" where
  "decimal s = foldl (\<lambda>n c. 10 * n + digitVal c) 0 s"

definition arrayIndex :: "string \<Rightarrow> int option" where
  "arrayIndex k =
     (if k \<noteq> [] \<and> list_all (\<lambda>c. 0 \<le> digitVal c) k
         \<and> (length k = 1 \<or> hd k \<noteq> CHR ''0'') \<and> decimal k < 2 ^ 32 - 1
      then Some (decimal k) else None)"

fun setProp :: "(string \<times> 'v) list \<Rightarrow> string \<Rightarrow> 'v \<Rightarrow> (string \<times> 'v) list" where
  "setProp [] k v = [(k, v)]"
| "setProp ((k', v') # obj) k v =
     (if k' = k then (k, v) # obj else (k', v') # setProp obj k v)"

definition fromEntries :: "(string \<times> 'v) list \<Rightarrow> (string \<times> 'v) list" where
  "fromEntries entries = foldl (\<lambda>obj (k, v). setProp obj k v) [] entries"

definition indexKey :: "string \<times> 'v \<Rightarrow> int" where
  "indexKey p = (case arrayIndex (fst p) of Some n \<Rightarrow> n | None \<Rightarrow> 0)"

definition ownEntries :: "(string \<times> 'v) list \<Rightarrow> (string \<times> 'v) list" where
  "ownEntries obj =
     sort_key indexKey (filter (\<lambda>p. arrayIndex (fst p) \<noteq> None) obj)
     @ filter (\<lambda>p. arrayIndex (fst p) = None) obj"

definition object_values :: "(string \<times> 'v) list \<Rightarrow> 'v list" where
  "object_values obj = map snd (ownEntries obj)"

section \<open>The recurrence reconciler and the whole conversion\<close>

text \<open>\<^verbatim>\<open>baseEvent.skipDates.push(event.date)\<close>, on a base event of type rrule.\<close>

definition pushSkipDate :: "OFCEvent \<Rightarrow> string \<Rightarrow> OFCEvent" where
  "pushSkipDate baseEvent d =
     (case baseEvent of
        RRuleEvent t i r sk sd a st et \<Rightarrow> RRuleEvent t i r (sk @ [d]) sd a st et
      | SingleEvent i t d' ed a st et \<Rightarrow> SingleEvent i t d' ed a st et)"

text \<open>
  The loop over the recurrence exceptions. A uid that names no own property of
  \<^verbatim>\<open>baseEvents\<close> reads \<^verbatim>\<open>undefined\<close> or a member of \<^verbatim>\<open>Object.prototype\<close>, which has no
  \<^verbatim>\<open>type\<close>: both ways the loop continues without a change.
\<close>

fun reconcile ::
  "(string \<times> OFCEvent) list \<Rightarrow> (string \<times> OFCEvent) list \<Rightarrow> (string \<times> OFCEvent) list" where
  "reconcile baseEvents [] = baseEvents"
| "reconcile baseEvents ((u, event) # rest) =
     (case map_of baseEvents u of
        None \<Rightarrow> reconcile baseEvents rest
      | Some baseEvent \<Rightarrow>
          if \<not> is_rrule baseEvent \<or> \<not> is_single event then reconcile baseEvents rest
          else reconcile (setProp baseEvents u (pushSkipDate baseEvent (date event))) rest)"

text \<open>An exception thrown inside a \<^verbatim>\<open>map\<close> callback ends the whole \<^verbatim>\<open>map\<close>.\<close>

fun traverse :: "('a \<Rightarrow> error + 'b) \<Rightarrow> 'a list \<Rightarrow> error + 'b list" where
  "traverse f [] = Inr []"
| "traverse f (x # xs) =
     (case f x of
        Inl err \<Rightarrow> Inl err
      | Inr y \<Rightarrow> (case traverse f xs of Inl err \<Rightarrow> Inl err | Inr ys \<Rightarrow> Inr (y # ys)))"

definition keyed :: "env \<Rightarrow> ical_Event \<Rightarrow> error + string \<times> OFCEvent" where
  "keyed E e = (case icsToOFC E e of Inl err \<Rightarrow> Inl err | Inr ev \<Rightarrow> Inr (uid e, ev))"

definition allEvents :: "env \<Rightarrow> ical_Event list \<Rightarrow> error + OFCEvent list" where
  "allEvents E events =
     (case traverse (keyed E) (filter (\<lambda>e. recurrenceId e = None) events) of
        Inl err \<Rightarrow> Inl err
      | Inr bases \<Rightarrow>
         (case traverse (keyed E) (filter (\<lambda>e. recurrenceId e \<noteq> None) events) of
            Inl err \<Rightarrow> Inl err
          | Inr recurrenceExceptions \<Rightarrow>
              Inr (object_values (reconcile (fromEntries bases) recurrenceExceptions)
                   @ map snd recurrenceExceptions)))"

text \<open>The callback of the filter: both \<^verbatim>\<open>toJSDate\<close> calls return.\<close>

definition resolvable :: "ical_Event \<Rightarrow> bool" where
  "resolvable evt =
     (case startDate evt of
        None \<Rightarrow> False
      | Some s \<Rightarrow>
         (case toJSDate s of
            None \<Rightarrow> False
          | Some _ \<Rightarrow>
             (case endDate evt of
                None \<Rightarrow> False
              | Some e \<Rightarrow> (case toJSDate e of None \<Rightarrow> False | Some _ \<Rightarrow> True))))"

definition register :: "registry \<Rightarrow> string \<Rightarrow> vtimezone \<Rightarrow> registry" where
  "register reg name tz = reg(name \<mapsto> tz)"

definition registerAll :: "registry \<Rightarrow> vtimezone list \<Rightarrow> registry" where
  "registerAll reg tzs = foldl (\<lambda>r tz. register r (tzid tz) tz) reg tzs"

text \<open>
  The conversion takes the zone table as it finds it and leaves it as the registrations
  made it; the events are read after the registrations.
\<close>

definition convertComponent ::
  "env \<Rightarrow> registry \<Rightarrow> component \<Rightarrow> (error + OFCEvent list) \<times> registry" where
  "convertComponent E reg component =
     (let reg' = registerAll reg (vtimezones component);
          events = filter resolvable (map (\<lambda>vevent. vevent reg') (vevents component))
      in case allEvents E events of
           Inl err \<Rightarrow> (Inl err, reg')
         | Inr all \<Rightarrow> (Inr (List.map_filter (validateEvent E) all), reg'))"

definition getEventsFromICS ::
  "env \<Rightarrow> registry \<Rightarrow> string \<Rightarrow> (error + OFCEvent list) \<times> registry" where
  "getEventsFromICS E reg text =
     (case parse E text of
        Inl err \<Rightarrow> (Inl err, reg)
      | Inr component \<Rightarrow> convertComponent E reg component)"

section \<open>The adjuster and the shift in the words of the specification\<close>

text \<open>
  The rewrite as the specification words it: no change for a zero shift or a rule without
  BYDAY, otherwise every token becomes the element of the Monday-start array at
  (token index + shift) mod 7.
\<close>

definition rotateRule :: "int \<Rightarrow> recur \<Rightarrow> recur" where
  "rotateRule s fv =
     (if s = 0 then fv
      else (case parts fv ''BYDAY'' of
              None \<Rightarrow> fv
            | Some ps \<Rightarrow>
                fv\<lparr>parts := (parts fv)(''BYDAY'' \<mapsto>
                  map (\<lambda>p. js_get WEEK_DAYS ((indexOf (map Some WEEK_DAYS) p + s) mod 7)) ps)\<rparr>))"

text \<open>
  The shift with the weekday of the start in the calendar of its own zone: the instant
  moved by the zone's offset.
\<close>

definition spec_dayShift :: "ical_Time \<Rightarrow> int" where
  "spec_dayShift t =
     (WeekDay (toUnixTime t * 1000) - WeekDay ((toUnixTime t + utcOffset t) * 1000)) mod 7"

text \<open>
  The dates that the recurrence exceptions of one uid hand to its base event, in the
  order of the exceptions: those of the exceptions that are single events.
\<close>

definition mergedDates :: "string \<Rightarrow> (string \<times> OFCEvent) list \<Rightarrow> string list" where
  "mergedDates u ovs = map date (filter is_single (map snd (filter (\<lambda>p. fst p = u) ovs)))"

section \<open>A reference environment for concrete runs\<close>

text \<open>
  Zones with a fixed offset (minutes east of UTC), the proleptic Gregorian calendar, the
  ISO texts that \<^verbatim>\<open>ical.Time.toString\<close> prints (a date, or a date and a time with an
  optional Z), and a host running in the canonical zone. Invalid texts and unknown zones
  are outside of it.
\<close>

definition days_from_civil :: "int \<Rightarrow> int \<Rightarrow> int \<Rightarrow> int" where
  "days_from_civil y m d =
     (let y' = (if m \<le> 2 then y - 1 else y);
          era = y' div 400;
          yoe = y' - era * 400;
          doy = (153 * (if m > 2 then m - 3 else m + 9) + 2) div 5 + d - 1;
          doe = yoe * 365 + yoe div 4 - yoe div 100 + doy
      in era * 146097 + doe - 719468)"

definition civil_from_days :: "int \<Rightarrow> int \<times> int \<times> int" where
  "civil_from_days z =
     (let z' = z + 719468;
          era = z' div 146097;
          doe = z' - era * 146097;
          yoe = (doe - doe div 1460 + doe div 36524 - doe div 146096) div 365;
          doy = doe - (365 * yoe + yoe div 4 - yoe div 100);
          mp = (5 * doy + 2) div 153;
          d = doy - (153 * mp + 2) div 5 + 1;
          m = (if mp < 10 then mp + 3 else mp - 9);
          y = yoe + era * 400
      in (if m \<le> 2 then y + 1 else y, m, d))"

definition digit :: "int \<Rightarrow> char" where
  "digit n = ''0123456789'' ! nat (n mod 10)"

definition pad2 :: "int \<Rightarrow> string" where
  "pad2 n = [digit (n div 10), digit n]"

definition pad4 :: "int \<Rightarrow> string" where
  "pad4 n = [digit (n div 1000), digit (n div 100), digit (n div 10), digit n]"

definition field :: "string \<Rightarrow> nat \<Rightarrow> nat \<Rightarrow> int" where
  "field s pos len = decimal (take len (drop pos s))"

definition ref_zones :: "(string \<times> int) list" where
  "ref_zones = [(''Asia/Seoul'', 540), (''UTC'', 0), (''Pacific/Honolulu'', - 600),
                (''Asia/Kolkata'', 330)]"

definition ref_offset :: "string \<Rightarrow> int" where
  "ref_offset z = (case map_of ref_zones z of Some m \<Rightarrow> m * 60000 | None \<Rightarrow> 0)"

definition ref_parseISO :: "string \<Rightarrow> string \<Rightarrow> int" where
  "ref_parseISO text z =
     (let wall = (days_from_civil (field text 0 4) (field text 5 2) (field text 8 2) * 86400
                  + field text 11 2 * 3600 + field text 14 2 * 60 + field text 17 2) * 1000
      in if drop 19 text = ''Z'' then wall else wall - ref_offset z)"

definition ref_isoDate :: "int \<Rightarrow> string \<Rightarrow> string" where
  "ref_isoDate t z =
     (case civil_from_days ((t + ref_offset z) div msPerDay) of
        (y, m, d) \<Rightarrow> pad4 y @ ''-'' @ pad2 m @ ''-'' @ pad2 d)"

text \<open>With \<^verbatim>\<open>suppressSeconds\<close> the seconds are left out when they are zero.\<close>

definition ref_isoTime :: "int \<Rightarrow> string \<Rightarrow> string" where
  "ref_isoTime t z =
     (let s = ((t + ref_offset z) mod msPerDay) div 1000
      in pad2 (s div 3600) @ '':'' @ pad2 (s div 60 mod 60)
         @ (if s mod 60 = 0 then [] else '':'' @ pad2 (s mod 60)))"

fun joinTokens :: "token list \<Rightarrow> string" where
  "joinTokens [] = []"
| "joinTokens [p] = (case p of None \<Rightarrow> [] | Some w \<Rightarrow> w)"
| "joinTokens (p # ps) = (case p of None \<Rightarrow> [] | Some w \<Rightarrow> w) @ '','' @ joinTokens ps"

definition ref_rrulestr :: "recur \<Rightarrow> error + string" where
  "ref_rrulestr fv =
     Inr (''RRULE:FREQ='' @ freq fv
          @ (case parts fv ''BYDAY'' of None \<Rightarrow> [] | Some ps \<Rightarrow> '';BYDAY='' @ joinTokens ps))"

definition ref_env :: "(error + component) \<Rightarrow> env" where
  "ref_env parsed =
     \<lparr>localTZA = (\<lambda>t. 32400000), parseISO = ref_parseISO, isoDate = ref_isoDate,
      isoTime = ref_isoTime, rrulestr = ref_rrulestr, validateEvent = Some,
      parse = (\<lambda>text. parsed)\<rparr>"

section \<open>Sample components\<close>

text \<open>
  A date-time with TZID Pacific/Honolulu whose zone is registered (ten hours behind UTC),
  and one in UTC: 2024-01-01 20:00 UTC, a Monday, is Tuesday 05:00 in Seoul.
\<close>

definition hnl :: "string \<Rightarrow> int \<Rightarrow> ical_Time" where
  "hnl text unix =
     \<lparr>isDate = False, timezone = Some ''Pacific/Honolulu'', toString = text,
      toUnixTime = unix, toJSDate = Some (unix * 1000), utcOffset = - 36000\<rparr>"

definition utc :: "string \<Rightarrow> int \<Rightarrow> ical_Time" where
  "utc text unix =
     \<lparr>isDate = False, timezone = Some ''Z'', toString = text,
      toUnixTime = unix, toJSDate = Some (unix * 1000), utcOffset = 0\<rparr>"

definition weekly :: "token list \<Rightarrow> recur" where
  "weekly ps = \<lparr>freq = ''WEEKLY'', parts = [''BYDAY'' \<mapsto> ps]\<rparr>"

text \<open>A weekly series that starts on Monday 2024-01-01 at 22:00 in Honolulu.\<close>

definition hnl_series :: ical_Event where
  "hnl_series =
     \<lparr>uid = ''series-1'', summary = ''Standup'', isRecurring = True, recurrenceId = None,
      startDate = Some (hnl ''2024-01-01T22:00:00'' 1704182400),
      endDate = Some (hnl ''2024-01-01T23:00:00'' 1704186000),
      exdate = [], rrule = Some (weekly [Some ''MO'']), dtend = True, duration = False\<rparr>"

text \<open>A weekly series that starts on Monday 2024-01-01 at 20:00 UTC.\<close>

definition utc_series :: ical_Event where
  "utc_series =
     \<lparr>uid = ''series-3'', summary = ''Review'', isRecurring = True, recurrenceId = None,
      startDate = Some (utc ''2024-01-01T20:00:00Z'' 1704139200),
      endDate = Some (utc ''2024-01-01T21:00:00Z'' 1704142800),
      exdate = [], rrule = Some (weekly [Some ''MO'', Some ''1MO'']),
      dtend = True, duration = False\<rparr>"

text \<open>
  A single event that starts at 22:00 in Honolulu and whose end, the same day at 23:00
  there, is written in the time of Kolkata.
\<close>

definition mixed_single :: ical_Event where
  "mixed_single =
     \<lparr>uid = ''single-1'', summary = ''Call'', isRecurring = False, recurrenceId = None,
      startDate = Some (hnl ''2024-01-01T22:00:00'' 1704182400),
      endDate = Some \<lparr>isDate = False, timezone = Some ''Asia/Kolkata'',
                       toString = ''2024-01-02T14:30:00'', toUnixTime = 1704186000,
                       toJSDate = Some 1704186000000, utcOffset = 19800\<rparr>,
      exdate = [], rrule = None, dtend = True, duration = False\<rparr>"

text \<open>
  A component with DTSTART and DTEND, recurring when it has a rule, an override when it
  has a RECURRENCE-ID.
\<close>

definition vevent_of ::
  "string \<Rightarrow> recur option \<Rightarrow> ical_Time option \<Rightarrow> ical_Time \<Rightarrow> ical_Time \<Rightarrow> ical_Event" where
  "vevent_of u r rid s e =
     \<lparr>uid = u, summary = ''Standup'',
      isRecurring = (case r of None \<Rightarrow> False | Some _ \<Rightarrow> True),
      recurrenceId = rid, startDate = Some s, endDate = Some e,
      exdate = [], rrule = r, dtend = True, duration = False\<rparr>"

text \<open>
  The occurrence of the Honolulu series on 2024-01-08, moved one hour earlier: as a plain
  override, and as an override that carries a rule of its own.
\<close>

definition hnl_override :: ical_Event where
  "hnl_override =
     vevent_of ''series-1'' None (Some (hnl ''2024-01-08T22:00:00'' 1704787200))
       (hnl ''2024-01-08T21:00:00'' 1704783600) (hnl ''2024-01-08T22:00:00'' 1704787200)"

definition rec_override :: ical_Event where
  "rec_override =
     vevent_of ''series-1'' (Some (weekly [Some ''TU''])) (Some (hnl ''2024-01-08T22:00:00'' 1704787200))
       (hnl ''2024-01-08T21:00:00'' 1704783600) (hnl ''2024-01-08T22:00:00'' 1704787200)"

text \<open>A second base component with the uid of the Honolulu series.\<close>

definition hnl_series_again :: ical_Event where
  "hnl_series_again =
     vevent_of ''series-1'' (Some (weekly [Some ''TU''])) None
       (hnl ''2024-01-02T22:00:00'' 1704268800) (hnl ''2024-01-02T23:00:00'' 1704272400)"

text \<open>A second base component with that uid that has no rule, so a single event.\<close>

definition single_again :: ical_Event where
  "single_again =
     vevent_of ''series-1'' None None
       (hnl ''2024-01-02T22:00:00'' 1704268800) (hnl ''2024-01-02T23:00:00'' 1704272400)"

text \<open>Two single events whose uids are the numerals 2 and 1.\<close>

definition event_2 :: ical_Event where
  "event_2 =
     vevent_of ''2'' None None
       (hnl ''2024-01-01T22:00:00'' 1704182400) (hnl ''2024-01-01T23:00:00'' 1704186000)"

definition event_1 :: ical_Event where
  "event_1 =
     vevent_of ''1'' None None
       (hnl ''2024-01-08T21:00:00'' 1704783600) (hnl ''2024-01-08T22:00:00'' 1704787200)"

text \<open>
  A date-time that ical.js treats as floating, one without TZID or with a TZID that is
  not registered: its epoch seconds are its wall clock read as UTC, and its \<^verbatim>\<open>Date\<close> is
  its wall clock read in the zone of the host, here Seoul.
\<close>

definition floating :: "string option \<Rightarrow> string \<Rightarrow> int \<Rightarrow> ical_Time" where
  "floating tz text wall =
     \<lparr>isDate = False, timezone = tz, toString = text,
      toUnixTime = wall, toJSDate = Some (wall * 1000 - 32400000), utcOffset = 0\<rparr>"

text \<open>A weekly series without TZID that starts on Monday 2024-01-01 at 16:00.\<close>

definition float_series :: ical_Event where
  "float_series =
     vevent_of ''series-2'' (Some (weekly [Some ''MO''])) None
       (floating None ''2024-01-01T16:00:00'' 1704124800)
       (floating None ''2024-01-01T17:00:00'' 1704128400)"

text \<open>A component without DTSTART, and the first series before its zone is registered.\<close>

definition no_start :: ical_Event where
  "no_start =
     \<lparr>uid = ''broken'', summary = ''Broken'', isRecurring = False, recurrenceId = None,
      startDate = None, endDate = None, exdate = [], rrule = None,
      dtend = False, duration = False\<rparr>"

definition hnl_series_unregistered :: ical_Event where
  "hnl_series_unregistered =
     vevent_of ''series-1'' (Some (weekly [Some ''MO''])) None
       (floating (Some ''Pacific/Honolulu'') ''2024-01-01T22:00:00'' 1704146400)
       (floating (Some ''Pacific/Honolulu'') ''2024-01-01T23:00:00'' 1704150000)"

text \<open>A VEVENT that reads one way when its zone is in the table and another way when not.\<close>

definition in_zone :: "string \<Rightarrow> ical_Event \<Rightarrow> ical_Event \<Rightarrow> vevent" where
  "in_zone z registered unregistered =
     (\<lambda>reg. case reg z of None \<Rightarrow> unregistered | Some _ \<Rightarrow> registered)"

text \<open>
  A calendar that declares the zone of Honolulu and holds the series, the component
  without DTSTART and the override of the series.
\<close>

definition sample_calendar :: component where
  "sample_calendar =
     \<lparr>vtimezones = [\<lparr>tzid = ''Pacific/Honolulu'', tzdata = ''STANDARD;TZOFFSETTO=-1000''\<rparr>],
      vevents = [in_zone ''Pacific/Honolulu'' hnl_series hnl_series_unregistered,
                 (\<lambda>reg. no_start),
                 (\<lambda>reg. hnl_override)]\<rparr>"

section \<open>Properties of the weekday rule adjuster\<close>

lemma WeekDay_range: "0 \<le> WeekDay t \<and> WeekDay t < 7"
  by (simp add: WeekDay_def)

lemma day_diff_range: "- 6 \<le> day_diff z t \<and> day_diff z t \<le> 6"
  using WeekDay_range [of t] WeekDay_range [of "t + z t"]
  by (simp add: day_diff_def getUTCDay_def getDay_def)

lemma dayShift_day_diff: "dayShift z t = day_diff z t mod 7"
  by (simp add: dayShift_def day_diff_def)

lemma mod7_zero_iff: "- 6 \<le> (d::int) \<Longrightarrow> d \<le> 6 \<Longrightarrow> d mod 7 = 0 \<longleftrightarrow> d = 0"
  by presburger

lemma dayShift_zero_iff: "dayShift z t = 0 \<longleftrightarrow> day_diff z t = 0"
  using day_diff_range [of z t] unfolding dayShift_day_diff by (simp add: mod7_zero_iff)

lemma js_rem_nonneg: "0 \<le> a \<Longrightarrow> js_rem a 7 = a mod 7"
  by (cases "a = 0") (simp_all add: js_rem_def)

lemma indexOfFrom_range:
  "indexOfFrom i xs x = - 1 \<or> (i \<le> indexOfFrom i xs x \<and> indexOfFrom i xs x < i + int (length xs))"
proof (induction xs arbitrary: i)
  case Nil
  then show ?case by simp
next
  case (Cons y ys)
  from Cons.IH [of "i + 1"] show ?case by auto
qed

lemma indexOfFrom_absent: "0 \<le> i \<Longrightarrow> x \<notin> set xs \<longleftrightarrow> indexOfFrom i xs x = - 1"
proof (induction xs arbitrary: i)
  case Nil
  then show ?case by simp
next
  case (Cons y ys)
  from Cons.prems have "0 \<le> i + 1" by simp
  from Cons.IH [OF this] Cons.prems show ?case by auto
qed

lemma indexOf_week_range: "- 1 \<le> indexOf (map Some WEEK_DAYS) p \<and> indexOf (map Some WEEK_DAYS) p < 7"
  using indexOfFrom_range [of 0 "map Some WEEK_DAYS" p]
  by (auto simp: indexOf_def WEEK_DAYS_def)

lemma indexOf_week_absent:
  "p \<notin> Some ` set WEEK_DAYS \<Longrightarrow> indexOf (map Some WEEK_DAYS) p = - 1"
  using indexOfFrom_absent [of 0 p "map Some WEEK_DAYS"] by (simp add: indexOf_def)

lemma adjustIndex_mod:
  assumes "- 6 \<le> d" "d \<le> 6"
  shows "adjustIndex d p = (indexOf (map Some WEEK_DAYS) p + d mod 7) mod 7"
proof -
  have "0 \<le> indexOf (map Some WEEK_DAYS) p + d + 7"
    using indexOf_week_range [of p] assms by linarith
  then have "adjustIndex d p = (indexOf (map Some WEEK_DAYS) p + d + 7) mod 7"
    by (simp add: adjustIndex_def js_rem_nonneg)
  also have "\<dots> = (indexOf (map Some WEEK_DAYS) p + d mod 7) mod 7"
    by presburger
  finally show ?thesis .
qed

lemma js_get_week_member:
  "0 \<le> i \<Longrightarrow> i < 7 \<Longrightarrow> js_get WEEK_DAYS i \<in> Some ` set WEEK_DAYS"
  by (simp add: js_get_def WEEK_DAYS_def nth_Cons')

lemma adjustToken_member:
  assumes "- 6 \<le> d" "d \<le> 6"
  shows "adjustToken d p \<in> Some ` set WEEK_DAYS"
proof -
  have "0 \<le> adjustIndex d p \<and> adjustIndex d p < 7"
    unfolding adjustIndex_mod [OF assms] by simp
  then show ?thesis
    unfolding adjustToken_def by (simp add: js_get_week_member)
qed

lemma adjustRule_rotate: "adjustRule (day_diff z t) fv = rotateRule (dayShift z t) fv"
proof -
  have "adjustToken (day_diff z t) =
          (\<lambda>p. js_get WEEK_DAYS ((indexOf (map Some WEEK_DAYS) p + dayShift z t) mod 7))"
    using day_diff_range [of z t]
    by (auto simp: adjustToken_def adjustIndex_mod dayShift_day_diff)
  then show ?thesis
    unfolding adjustRule_def rotateRule_def by (simp only: dayShift_zero_iff) simp
qed

lemma icsToOFC_rrule:
  assumes "icsToOFC E input = Inr ev" "isRecurring input" "startDate input = Some sd"
    "toJSDate sd = Some t" "rrule input = Some fv"
  shows "rrulestr E (adjustRule (day_diff (localTZA E) t) fv) = Inr (ofc_rrule ev)"
  using assms
  by (auto simp: icsToOFC_def Let_def split: sum.splits option.splits if_splits)

text \<open>
  C1, as the code has it. For every recurring component that converts, the adjuster
  leaves, and hands to the rule parser, the component's rule rewritten as the
  specification describes,
  with the shift (weekday of the start's Date in UTC minus its weekday in the local time
  of the machine that runs the code) mod 7, Sunday being 0: for a non-zero shift every
  BYDAY token becomes the element of [MO,TU,WE,TH,FR,SA,SU] at (token index + shift)
  mod 7, and for a zero shift or a rule without BYDAY the rule is unchanged. The second
  weekday is the host's (\<^verbatim>\<open>getDay\<close>), not the one of the component's own zone.
\<close>

theorem C1_adjuster_host_weekday:
  assumes "icsToOFC E input = Inr ev" "isRecurring input" "startDate input = Some sd"
    "toJSDate sd = Some t" "rrule input = Some fv"
  shows "adjustRule (day_diff (localTZA E) t) fv = rotateRule (dayShift (localTZA E) t) fv
         \<and> rrulestr E (rotateRule (dayShift (localTZA E) t) fv) = Inr (ofc_rrule ev)"
  using icsToOFC_rrule [OF assms] by (simp add: adjustRule_rotate)

text \<open>
  A run of C1: on a host in Seoul the series starting Monday 20:00 UTC has the shift 6
  (UTC Monday, local Tuesday), so MO becomes SU.
\<close>

theorem C1_adjuster_host_weekday_witness:
  "icsToOFC (ref_env (Inl ParserError)) utc_series =
     Inr (RRuleEvent ''Review'' ''ics::series-3::2024-01-02::recurring''
            ''RRULE:FREQ=WEEKLY;BYDAY=SU,SA'' [] ''2024-01-02'' False
            (Some ''05:00'') (Some ''06:00''))
   \<and> rrulestr (ref_env (Inl ParserError))
        (rotateRule (dayShift (localTZA (ref_env (Inl ParserError))) 1704139200000)
           (weekly [Some ''MO'', Some ''1MO''])) = Inr ''RRULE:FREQ=WEEKLY;BYDAY=SU,SA''"
proof -
  have c: "icsToOFC (ref_env (Inl ParserError)) utc_series =
     Inr (RRuleEvent ''Review'' ''ics::series-3::2024-01-02::recurring''
            ''RRULE:FREQ=WEEKLY;BYDAY=SU,SA'' [] ''2024-01-02'' False
            (Some ''05:00'') (Some ''06:00''))"
    by code_simp
  have r: "isRecurring utc_series" by code_simp
  have s: "startDate utc_series = Some (utc ''2024-01-01T20:00:00Z'' 1704139200)" by code_simp
  have j: "toJSDate (utc ''2024-01-01T20:00:00Z'' 1704139200) = Some 1704139200000" by code_simp
  have f: "rrule utc_series = Some (weekly [Some ''MO'', Some ''1MO''])"
    by (simp add: utc_series_def)
  from C1_adjuster_host_weekday [OF c r s j f] c show ?thesis by simp
qed

text \<open>
  C1 as stated fails where the host's zone is not the component's: the series starting
  Monday 22:00 in Honolulu starts on Tuesday in UTC, so the shift of the claim is 1 and
  its rule would read BYDAY=TU; on a host in Seoul the code finds Tuesday on both sides
  and keeps BYDAY=MO.
\<close>

theorem C1_counterexample:
  "icsToOFC (ref_env (Inl ParserError)) hnl_series =
     Inr (RRuleEvent ''Standup'' ''ics::series-1::2024-01-02::recurring''
            ''RRULE:FREQ=WEEKLY;BYDAY=MO'' [] ''2024-01-02'' False
            (Some ''17:00'') (Some ''18:00''))
   \<and> spec_dayShift (hnl ''2024-01-01T22:00:00'' 1704182400) = 1
   \<and> rrulestr (ref_env (Inl ParserError))
        (rotateRule (spec_dayShift (hnl ''2024-01-01T22:00:00'' 1704182400))
           (weekly [Some ''MO''])) = Inr ''RRULE:FREQ=WEEKLY;BYDAY=TU''"
  by code_simp

text \<open>
  C10. For a non-zero day difference every BYDAY token of the rewritten rule is one of
  MO, TU, WE, TH, FR, SA, SU, and a token that is not one of these seven codes (such as
  1MO), whose list index is -1, becomes the array element at (dayShift + 6) mod 7.
\<close>

theorem C10_rewritten_tokens:
  assumes "day_diff z t \<noteq> 0" "parts fv ''BYDAY'' = Some ps"
  shows "parts (adjustRule (day_diff z t) fv) ''BYDAY'' = Some (map (adjustToken (day_diff z t)) ps)
         \<and> set (map (adjustToken (day_diff z t)) ps) \<subseteq> Some ` set WEEK_DAYS
         \<and> (\<forall>p. p \<notin> Some ` set WEEK_DAYS \<longrightarrow>
               adjustToken (day_diff z t) p = js_get WEEK_DAYS ((dayShift z t + 6) mod 7))"
proof -
  have d: "- 6 \<le> day_diff z t" "day_diff z t \<le> 6"
    using day_diff_range [of z t] by simp_all
  have 1: "parts (adjustRule (day_diff z t) fv) ''BYDAY'' = Some (map (adjustToken (day_diff z t)) ps)"
    using assms by (simp add: adjustRule_def)
  have 2: "set (map (adjustToken (day_diff z t)) ps) \<subseteq> Some ` set WEEK_DAYS"
    using adjustToken_member [OF d] by auto
  have 3: "adjustToken (day_diff z t) p = js_get WEEK_DAYS ((dayShift z t + 6) mod 7)"
    if "p \<notin> Some ` set WEEK_DAYS" for p
  proof -
    have "adjustIndex (day_diff z t) p = (- 1 + day_diff z t mod 7) mod 7"
      by (simp add: adjustIndex_mod [OF d] indexOf_week_absent [OF that])
    also have "\<dots> = (dayShift z t + 6) mod 7"
      unfolding dayShift_day_diff by presburger
    finally show ?thesis by (simp add: adjustToken_def)
  qed
  from 1 2 3 show ?thesis by blast
qed

text \<open>A run of C10: the start of the UTC series on a host in Seoul, tokens MO and 1MO.\<close>

theorem C10_rewritten_tokens_witness:
  "day_diff (\<lambda>t. 32400000) 1704139200000 \<noteq> 0
   \<and> parts (adjustRule (day_diff (\<lambda>t. 32400000) 1704139200000)
              (weekly [Some ''MO'', Some ''1MO''])) ''BYDAY'' = Some [Some ''SU'', Some ''SA'']
   \<and> Some ''1MO'' \<notin> Some ` set WEEK_DAYS
   \<and> js_get WEEK_DAYS ((dayShift (\<lambda>t. 32400000) 1704139200000 + 6) mod 7) = Some ''SA''"
proof -
  have h1: "day_diff (\<lambda>t. 32400000) 1704139200000 \<noteq> 0" by code_simp
  have h2: "parts (weekly [Some ''MO'', Some ''1MO'']) ''BYDAY'' = Some [Some ''MO'', Some ''1MO'']"
    by code_simp
  have e: "map (adjustToken (day_diff (\<lambda>t. 32400000) 1704139200000)) [Some ''MO'', Some ''1MO'']
           = [Some ''SU'', Some ''SA'']" by code_simp
  have n: "Some ''1MO'' \<notin> Some ` set WEEK_DAYS" by code_simp
  have a: "adjustToken (day_diff (\<lambda>t. 32400000) 1704139200000) (Some ''1MO'') = Some ''SA''"
    by code_simp
  from C10_rewritten_tokens [OF h1 h2] h1 e n a show ?thesis by auto
qed

section \<open>Properties of the time normalizer and the event builder\<close>

lemma setZone_same: "setZone (fromISO E tstr z) z = fromISO E tstr z"
  by (simp add: setZone_def fromISO_def)

text \<open>
  C2. A timestamp with an empty or absent zone name is read as being in the canonical
  zone, so its date and time of day are taken without any conversion; with the zone
  name Z it is read as UTC; with any other name it is read in that zone; in the last two
  cases it is converted to the canonical zone before the date or the time of day is
  taken.
\<close>

theorem C2_zone_of_timestamp:
  "(tzone = None \<or> tzone = Some [] \<longrightarrow>
      getDateL E tstr tzone = toISODate E (fromISO E tstr DEFAULT_ZONE)
      \<and> getTimeL E tstr tzone = toISOTime E (fromISO E tstr DEFAULT_ZONE))
   \<and> (tzone = Some ''Z'' \<longrightarrow>
      getDateL E tstr tzone = toISODate E (setZone (fromISO E tstr ''UTC'') DEFAULT_ZONE)
      \<and> getTimeL E tstr tzone = toISOTime E (setZone (fromISO E tstr ''UTC'') DEFAULT_ZONE))
   \<and> (tzone = Some z \<and> z \<noteq> [] \<and> z \<noteq> ''Z'' \<longrightarrow>
      getDateL E tstr tzone = toISODate E (setZone (fromISO E tstr z) DEFAULT_ZONE)
      \<and> getTimeL E tstr tzone = toISOTime E (setZone (fromISO E tstr z) DEFAULT_ZONE))"
  by (auto simp: getDateL_def getTimeL_def zoneOrDefault_def setZone_same DEFAULT_ZONE_def)

text \<open>A run of C2 in the reference environment, one timestamp for each case.\<close>

theorem C2_zone_of_timestamp_witness:
  "getDateL (ref_env (Inl ParserError)) ''2024-01-01T23:30:00'' None = ''2024-01-01''
   \<and> getTimeL (ref_env (Inl ParserError)) ''2024-01-01T23:30:00'' None = ''23:30''
   \<and> getDateL (ref_env (Inl ParserError)) ''2024-01-01T23:30:00Z'' (Some ''Z'') = ''2024-01-02''
   \<and> getTimeL (ref_env (Inl ParserError)) ''2024-01-01T23:30:00Z'' (Some ''Z'') = ''08:30''
   \<and> getDateL (ref_env (Inl ParserError)) ''2024-01-01T23:30:00'' (Some ''Pacific/Honolulu'') = ''2024-01-02''
   \<and> getTimeL (ref_env (Inl ParserError)) ''2024-01-01T23:30:00'' (Some ''Pacific/Honolulu'') = ''18:30''"
proof -
  let ?E = "ref_env (Inl ParserError)"
  have a: "toISODate ?E (fromISO ?E ''2024-01-01T23:30:00'' DEFAULT_ZONE) = ''2024-01-01''"
    "toISOTime ?E (fromISO ?E ''2024-01-01T23:30:00'' DEFAULT_ZONE) = ''23:30''"
    by code_simp+
  have b: "toISODate ?E (setZone (fromISO ?E ''2024-01-01T23:30:00Z'' ''UTC'') DEFAULT_ZONE) = ''2024-01-02''"
    "toISOTime ?E (setZone (fromISO ?E ''2024-01-01T23:30:00Z'' ''UTC'') DEFAULT_ZONE) = ''08:30''"
    by code_simp+
  have c: "toISODate ?E (setZone (fromISO ?E ''2024-01-01T23:30:00'' ''Pacific/Honolulu'') DEFAULT_ZONE) = ''2024-01-02''"
    "toISOTime ?E (setZone (fromISO ?E ''2024-01-01T23:30:00'' ''Pacific/Honolulu'') DEFAULT_ZONE) = ''18:30''"
    by code_simp+
  from C2_zone_of_timestamp [of None ?E "''2024-01-01T23:30:00''" "''''"]
    C2_zone_of_timestamp [of "Some ''Z''" ?E "''2024-01-01T23:30:00Z''" "''''"]
    C2_zone_of_timestamp [of "Some ''Pacific/Honolulu''" ?E "''2024-01-01T23:30:00''" "''Pacific/Honolulu''"]
    a b c
  show ?thesis by simp
qed

text \<open>
  C3. For every component that is not all-day and converts, recurring or single, the
  start time of the event is the start timestamp read in the zone of the start, and the
  end time is the end timestamp read in the zone of the start as well, not in the zone
  of the end; both are given in the canonical zone.
\<close>

theorem C3_times_in_start_zone:
  assumes "icsToOFC E input = Inr ev" "startDate input = Some sd" "\<not> isDate sd"
  shows "\<exists>ed. endDate input = Some ed
           \<and> startTime ev = Some (getTimeL E (toString sd) (timezone sd))
           \<and> endTime ev = Some (getTimeL E (toString ed) (timezone sd))"
  using assms
  by (auto simp: icsToOFC_def Let_def split: sum.splits option.splits if_splits)

text \<open>
  A run of C3: the end written as 14:30 in Kolkata is read as 14:30 in Honolulu, which
  is 09:30 in Seoul; read in its own zone it would be 18:00.
\<close>

theorem C3_times_in_start_zone_witness:
  "icsToOFC (ref_env (Inl ParserError)) mixed_single =
     Inr (SingleEvent ''ics::single-1::2024-01-02::single'' ''Call'' ''2024-01-02''
            None False (Some ''17:00'') (Some ''09:30''))
   \<and> getTimeL (ref_env (Inl ParserError)) ''2024-01-02T14:30:00'' (Some ''Pacific/Honolulu'') = ''09:30''
   \<and> getTimeL (ref_env (Inl ParserError)) ''2024-01-02T14:30:00'' (Some ''Asia/Kolkata'') = ''18:00''"
proof -
  let ?E = "ref_env (Inl ParserError)"
  let ?ev = "SingleEvent ''ics::single-1::2024-01-02::single'' ''Call'' ''2024-01-02''
            None False (Some ''17:00'') (Some ''09:30'')"
  have c: "icsToOFC ?E mixed_single = Inr ?ev" by code_simp
  have s: "startDate mixed_single = Some (hnl ''2024-01-01T22:00:00'' 1704182400)" by code_simp
  have d: "\<not> isDate (hnl ''2024-01-01T22:00:00'' 1704182400)" by code_simp
  have e: "endDate mixed_single = Some \<lparr>isDate = False, timezone = Some ''Asia/Kolkata'',
                       toString = ''2024-01-02T14:30:00'', toUnixTime = 1704186000,
                       toJSDate = Some 1704186000000, utcOffset = 19800\<rparr>" by code_simp
  have t: "timezone (hnl ''2024-01-01T22:00:00'' 1704182400) = Some ''Pacific/Honolulu''" by code_simp
  have k: "getTimeL ?E ''2024-01-02T14:30:00'' (Some ''Asia/Kolkata'') = ''18:00''" by code_simp
  from C3_times_in_start_zone [OF c s d] e t have
    "endTime ?ev = Some (getTimeL ?E ''2024-01-02T14:30:00'' (Some ''Pacific/Honolulu''))"
    by simp
  with c k show ?thesis by simp
qed

lemma icsToOFC_id:
  assumes "icsToOFC E input = Inr ev" "startDate input = Some sd"
  shows "(is_single ev \<longrightarrow> ofc_id ev = ''ics::'' @ uid input @ ''::'' @ date ev @ ''::single'')
       \<and> (is_rrule ev \<longrightarrow> ofc_id ev = ''ics::'' @ uid input @ ''::'' @ getDate E sd @ ''::recurring'')"
  using assms
  by (auto simp: icsToOFC_def Let_def split: sum.splits option.splits if_splits)

section \<open>Properties of the dictionary of base events and of the reconciler\<close>

lemma map_of_setProp: "map_of (setProp obj k v) = (map_of obj)(k \<mapsto> v)"
  by (induction obj) auto

lemma keys_setProp:
  "map fst (setProp obj k v) = (if k \<in> set (map fst obj) then map fst obj else map fst obj @ [k])"
proof (induction obj)
  case Nil
  then show ?case by simp
next
  case (Cons p obj)
  obtain k' v' where p: "p = (k', v')" by (cases p)
  show ?case
  proof (cases "k' = k")
    case True
    then show ?thesis by (simp add: p)
  next
    case False
    with Cons show ?thesis by (simp add: p)
  qed
qed

lemma distinct_setProp: "distinct (map fst obj) \<Longrightarrow> distinct (map fst (setProp obj k v))"
  by (simp add: keys_setProp)

lemma setProp_fresh: "k \<notin> set (map fst obj) \<Longrightarrow> setProp obj k v = obj @ [(k, v)]"
  by (induction obj) auto

lemma foldl_setProp_map_of:
  "map_of (foldl (\<lambda>obj (k, v). setProp obj k v) obj es) = map_of obj ++ map_of (rev es)"
proof (induction es arbitrary: obj)
  case Nil
  then show ?case by simp
next
  case (Cons e es)
  obtain k v where e: "e = (k, v)" by (cases e)
  have "map_of (setProp obj k v) ++ map_of (rev es) = map_of obj ++ ([k \<mapsto> v] ++ map_of (rev es))"
    by (auto simp: map_of_setProp fun_eq_iff map_add_def split: option.splits)
  then show ?case using Cons.IH [of "setProp obj k v"] by (simp add: e)
qed

lemma foldl_setProp_distinct:
  "distinct (map fst obj) \<Longrightarrow> distinct (map fst (foldl (\<lambda>obj (k, v). setProp obj k v) obj es))"
proof (induction es arbitrary: obj)
  case Nil
  then show ?case by simp
next
  case (Cons e es)
  obtain k v where e: "e = (k, v)" by (cases e)
  from Cons.IH [OF distinct_setProp [OF Cons.prems, of k v]] show ?case by (simp add: e)
qed

lemma foldl_setProp_keys:
  "set (map fst (foldl (\<lambda>obj (k, v). setProp obj k v) obj es)) = set (map fst obj) \<union> set (map fst es)"
proof (induction es arbitrary: obj)
  case Nil
  then show ?case by simp
next
  case (Cons e es)
  obtain k v where e: "e = (k, v)" by (cases e)
  have "set (map fst (setProp obj k v)) = insert k (set (map fst obj))"
    by (auto simp: keys_setProp)
  with Cons.IH [of "setProp obj k v"] show ?case by (auto simp: e)
qed

lemma foldl_setProp_fresh:
  "distinct (map fst (obj @ es)) \<Longrightarrow> foldl (\<lambda>obj (k, v). setProp obj k v) obj es = obj @ es"
proof (induction es arbitrary: obj)
  case Nil
  then show ?case by simp
next
  case (Cons e es)
  obtain k v where e: "e = (k, v)" by (cases e)
  from Cons.prems have f: "k \<notin> set (map fst obj)" by (auto simp: e)
  from Cons.prems have "distinct (map fst ((obj @ [(k, v)]) @ es))" by (auto simp: e)
  from Cons.IH [OF this] show ?case by (simp add: e setProp_fresh [OF f])
qed

lemma fromEntries_map_of: "map_of (fromEntries es) = map_of (rev es)"
  by (simp add: fromEntries_def foldl_setProp_map_of)

lemma fromEntries_distinct: "distinct (map fst (fromEntries es))"
  by (simp add: fromEntries_def foldl_setProp_distinct)

lemma fromEntries_keys: "set (map fst (fromEntries es)) = set (map fst es)"
  using foldl_setProp_keys [of "[]" es] by (simp add: fromEntries_def)

lemma fromEntries_fresh: "distinct (map fst es) \<Longrightarrow> fromEntries es = es"
  using foldl_setProp_fresh [of "[]" es] by (simp add: fromEntries_def)

lemma reconcile_keys: "map fst (reconcile bs ovs) = map fst bs"
proof (induction bs ovs rule: reconcile.induct)
  case (1 baseEvents)
  then show ?case by simp
next
  case (2 baseEvents u event rest)
  show ?case
  proof (cases "map_of baseEvents u")
    case None
    with 2 show ?thesis by simp
  next
    case (Some b)
    then have "u \<in> set (map fst baseEvents)" by (auto dest: map_of_SomeD intro: rev_image_eqI)
    with 2 Some show ?thesis by (auto simp: keys_setProp)
  qed
qed

lemma pushSkipDate_single: "\<not> is_rrule b \<Longrightarrow> pushSkipDate b d = b"
  by (cases b) (simp_all add: pushSkipDate_def)

lemma is_rrule_pushSkipDate: "is_rrule (pushSkipDate b d) = is_rrule b"
  by (cases b) (simp_all add: pushSkipDate_def)

lemma ofc_id_pushSkipDate: "ofc_id (pushSkipDate b d) = ofc_id b"
  by (cases b) (simp_all add: pushSkipDate_def)

lemma skipDates_pushSkipDate: "is_rrule b \<Longrightarrow> skipDates (pushSkipDate b d) = skipDates b @ [d]"
  by (cases b) (simp_all add: pushSkipDate_def)

lemma foldl_pushSkipDate:
  "is_rrule b \<Longrightarrow> is_rrule (foldl pushSkipDate b ds)
     \<and> ofc_id (foldl pushSkipDate b ds) = ofc_id b
     \<and> skipDates (foldl pushSkipDate b ds) = skipDates b @ ds"
  by (induction ds arbitrary: b)
     (simp_all add: is_rrule_pushSkipDate ofc_id_pushSkipDate skipDates_pushSkipDate)

lemma foldl_pushSkipDate_single: "\<not> is_rrule b \<Longrightarrow> foldl pushSkipDate b ds = b"
  by (induction ds) (simp_all add: pushSkipDate_single)

lemma reconcile_map_of:
  "map_of (reconcile bs ovs) u =
     map_option (\<lambda>b. foldl pushSkipDate b (mergedDates u ovs)) (map_of bs u)"
proof (induction bs ovs rule: reconcile.induct)
  case (1 baseEvents)
  then show ?case by (cases "map_of baseEvents u") (simp_all add: mergedDates_def)
next
  case (2 baseEvents u' event rest)
  show ?case
  proof (cases "map_of baseEvents u'")
    case None
    with 2 show ?thesis by (cases "u = u'") (simp_all add: mergedDates_def)
  next
    case (Some b)
    show ?thesis
    proof (cases "\<not> is_rrule b \<or> \<not> is_single event")
      case True
      with 2 Some show ?thesis
        by (cases "u = u'") (auto simp: mergedDates_def pushSkipDate_single)
    next
      case False
      with 2 Some show ?thesis
        by (cases "u = u'") (auto simp: mergedDates_def map_of_setProp)
    qed
  qed
qed

lemma set_ownEntries: "set (ownEntries obj) = set obj"
  by (auto simp: ownEntries_def)

lemma length_ownEntries: "length (ownEntries obj) = length obj"
  using sum_length_filter_compl [of "\<lambda>p. arrayIndex (fst p) \<noteq> None" obj]
  by (simp add: ownEntries_def)

lemma ownEntries_no_index:
  "list_all (\<lambda>k. arrayIndex k = None) (map fst obj) \<Longrightarrow> ownEntries obj = obj"
  by (simp add: ownEntries_def list_all_iff filter_empty_conv)

lemma traverse_Inr:
  "traverse f xs = Inr ys \<Longrightarrow> list_all2 (\<lambda>x y. f x = Inr y) xs ys"
  by (induction xs arbitrary: ys) (auto split: sum.splits)

lemma traverse_keyed:
  "traverse (keyed E) xs = Inr ys \<Longrightarrow> list_all2 (\<lambda>x y. y = (uid x, snd y) \<and> icsToOFC E x = Inr (snd y)) xs ys"
  by (drule traverse_Inr, erule list_all2_mono) (auto simp: keyed_def split: sum.splits)

lemma traverse_keyed_keys: "traverse (keyed E) xs = Inr ys \<Longrightarrow> map fst ys = map uid xs"
  by (drule traverse_keyed) (induction xs ys rule: list_all2_induct, auto)

lemma traverse_keyed_member:
  assumes "traverse (keyed E) xs = Inr ys" "x \<in> set xs" "icsToOFC E x = Inr ev"
  shows "(uid x, ev) \<in> set ys"
proof -
  from assms(2) obtain i where i: "i < length xs" "xs ! i = x"
    by (auto simp: in_set_conv_nth)
  note a = traverse_keyed [OF assms(1)]
  from list_all2_nthD [OF a i(1)] i(2) assms(3) have "ys ! i = (uid x, ev)"
    by simp
  moreover from list_all2_lengthD [OF a] i(1) have "i < length ys" by simp
  ultimately show ?thesis by (metis nth_mem)
qed

lemma allEvents_Inr:
  assumes "traverse (keyed E) (filter (\<lambda>e. recurrenceId e = None) events) = Inr bases"
    and "traverse (keyed E) (filter (\<lambda>e. recurrenceId e \<noteq> None) events) = Inr ovs"
  shows "allEvents E events =
           Inr (object_values (reconcile (fromEntries bases) ovs) @ map snd ovs)"
  using assms by (simp add: allEvents_def)

lemma map_of_member_values: "map_of obj k = Some v \<Longrightarrow> v \<in> set (object_values obj)"
proof -
  assume "map_of obj k = Some v"
  then have "(k, v) \<in> set (ownEntries obj)"
    by (simp add: set_ownEntries map_of_SomeD)
  then show ?thesis
    unfolding object_values_def by (metis image_eqI set_map snd_conv)
qed

lemma mergedDates_member:
  "(u, ov) \<in> set ovs \<Longrightarrow> is_single ov \<Longrightarrow> date ov \<in> set (mergedDates u ovs)"
  by (force simp: mergedDates_def)

lemma reconcile_orphan:
  "u \<notin> set (map fst bs) \<Longrightarrow> reconcile bs (filter (\<lambda>p. fst p \<noteq> u) ovs) = reconcile bs ovs"
proof (induction bs ovs rule: reconcile.induct)
  case (1 baseEvents)
  then show ?case by simp
next
  case (2 baseEvents u' event rest)
  show ?case
  proof (cases "map_of baseEvents u'")
    case None
    with 2 show ?thesis by simp
  next
    case (Some b)
    then have in_keys: "u' \<in> set (map fst baseEvents)"
      by (auto dest: map_of_SomeD intro: rev_image_eqI)
    with "2.prems" have ne: "u' \<noteq> u" by auto
    have keys: "map fst (setProp baseEvents u' (pushSkipDate b (date event))) = map fst baseEvents"
      using in_keys by (simp add: keys_setProp)
    show ?thesis
    proof (cases "\<not> is_rrule b \<or> \<not> is_single event")
      case True
      with 2 Some ne show ?thesis by auto
    next
      case False
      with "2.IH"(3) [OF Some] "2.prems" keys Some ne show ?thesis by auto
    qed
  qed
qed

text \<open>
  C4, as the code has it. For every override component that converts to a single event
  and whose uid names a base event that converted to a recurring one: after
  reconciliation the base event of that uid is still recurring, has the same identifier
  and holds the date of the override among its skipDates; it is one of the base events
  of the result, and the override is in the result as a record of its own. The result
  is the base events followed by the conversions of the override components in the order
  of the source. When the uids of the base components are pairwise distinct and none of
  them is an array index (the decimal text of an integer below \<open>2^32 - 1\<close>), the base
  events are in the order of the source as well.
\<close>

theorem C4_override_merged_and_kept:
  assumes bases: "traverse (keyed E) (filter (\<lambda>e. recurrenceId e = None) events) = Inr bases"
    and ovs: "traverse (keyed E) (filter (\<lambda>e. recurrenceId e \<noteq> None) events) = Inr ovs"
    and x: "x \<in> set events" "recurrenceId x \<noteq> None" "icsToOFC E x = Inr ov" "is_single ov"
    and b: "map_of (fromEntries bases) (uid x) = Some b" "is_rrule b"
  shows "\<exists>b'. allEvents E events =
                 Inr (object_values (reconcile (fromEntries bases) ovs) @ map snd ovs)
           \<and> map_of (reconcile (fromEntries bases) ovs) (uid x) = Some b'
           \<and> b' \<in> set (object_values (reconcile (fromEntries bases) ovs))
           \<and> is_rrule b' \<and> ofc_id b' = ofc_id b \<and> date ov \<in> set (skipDates b')
           \<and> ov \<in> set (map snd ovs)
           \<and> list_all2 (\<lambda>e ev. icsToOFC E e = Inr ev)
                (filter (\<lambda>e. recurrenceId e \<noteq> None) events) (map snd ovs)
           \<and> (distinct (map fst bases) \<and> list_all (\<lambda>k. arrayIndex k = None) (map fst bases) \<longrightarrow>
                map fst (ownEntries (reconcile (fromEntries bases) ovs))
                  = map uid (filter (\<lambda>e. recurrenceId e = None) events))"
proof -
  let ?R = "reconcile (fromEntries bases) ovs"
  let ?b' = "foldl pushSkipDate b (mergedDates (uid x) ovs)"
  from x(1,2) have "x \<in> set (filter (\<lambda>e. recurrenceId e \<noteq> None) events)" by simp
  from traverse_keyed_member [OF ovs this x(3)] have mem: "(uid x, ov) \<in> set ovs" .
  have 1: "map_of ?R (uid x) = Some ?b'"
    by (simp add: reconcile_map_of b(1))
  have 2: "?b' \<in> set (object_values ?R)"
    by (rule map_of_member_values [OF 1])
  have 3: "is_rrule ?b' \<and> ofc_id ?b' = ofc_id b \<and> date ov \<in> set (skipDates ?b')"
    using foldl_pushSkipDate [OF b(2), of "mergedDates (uid x) ovs"]
      mergedDates_member [OF mem x(4)] by simp
  from mem have 4: "ov \<in> set (map snd ovs)" by force
  have 5: "list_all2 (\<lambda>e ev. icsToOFC E e = Inr ev)
             (filter (\<lambda>e. recurrenceId e \<noteq> None) events) (map snd ovs)"
    using traverse_keyed [OF ovs] by (simp add: list_all2_map2 list_all2_mono)
  have 6: "map fst (ownEntries ?R) = map uid (filter (\<lambda>e. recurrenceId e = None) events)"
    if "distinct (map fst bases)" "list_all (\<lambda>k. arrayIndex k = None) (map fst bases)"
  proof -
    have "map fst ?R = map fst bases"
      by (simp add: reconcile_keys fromEntries_fresh [OF that(1)])
    with that(2) have "ownEntries ?R = ?R"
      by (simp add: ownEntries_no_index)
    then show ?thesis
      by (simp add: reconcile_keys fromEntries_fresh [OF that(1)] traverse_keyed_keys [OF bases])
  qed
  from allEvents_Inr [OF bases ovs] 1 2 3 4 5 6 show ?thesis by blast
qed

text \<open>A run of C4: the Honolulu series and the override of its occurrence of 2024-01-08.\<close>

theorem C4_override_merged_and_kept_witness:
  "allEvents (ref_env (Inl ParserError)) [hnl_series, hnl_override] =
     Inr [RRuleEvent ''Standup'' ''ics::series-1::2024-01-02::recurring'' ''RRULE:FREQ=WEEKLY;BYDAY=MO'' [''2024-01-09''] ''2024-01-02'' False (Some ''17:00'') (Some ''18:00''),
          SingleEvent ''ics::series-1::2024-01-09::single'' ''Standup'' ''2024-01-09'' None False (Some ''16:00'') (Some ''17:00'')]
   \<and> (\<exists>b'. map_of (reconcile (fromEntries [(''series-1'', RRuleEvent ''Standup'' ''ics::series-1::2024-01-02::recurring'' ''RRULE:FREQ=WEEKLY;BYDAY=MO'' [] ''2024-01-02'' False (Some ''17:00'') (Some ''18:00''))])
                      [(''series-1'', SingleEvent ''ics::series-1::2024-01-09::single'' ''Standup'' ''2024-01-09'' None False (Some ''16:00'') (Some ''17:00''))]) ''series-1'' = Some b'
          \<and> ''2024-01-09'' \<in> set (skipDates b'))"
proof -
  let ?E = "ref_env (Inl ParserError)"
  let ?b = "RRuleEvent ''Standup'' ''ics::series-1::2024-01-02::recurring'' ''RRULE:FREQ=WEEKLY;BYDAY=MO'' [] ''2024-01-02'' False (Some ''17:00'') (Some ''18:00'')"
  let ?ov = "SingleEvent ''ics::series-1::2024-01-09::single'' ''Standup'' ''2024-01-09'' None False (Some ''16:00'') (Some ''17:00'')"
  have bases: "traverse (keyed ?E) (filter (\<lambda>e. recurrenceId e = None) [hnl_series, hnl_override])
                 = Inr [(''series-1'', ?b)]" by code_simp
  have ovs: "traverse (keyed ?E) (filter (\<lambda>e. recurrenceId e \<noteq> None) [hnl_series, hnl_override])
                 = Inr [(''series-1'', ?ov)]" by code_simp
  have x: "hnl_override \<in> set [hnl_series, hnl_override]" by simp
  have r: "recurrenceId hnl_override \<noteq> None" by code_simp
  have c: "icsToOFC ?E hnl_override = Inr ?ov" by code_simp
  have s: "is_single ?ov" by simp
  have b: "map_of (fromEntries [(''series-1'', ?b)]) (uid hnl_override) = Some ?b" by code_simp
  have rr: "is_rrule ?b" by simp
  have u: "uid hnl_override = ''series-1''" by code_simp
  have a: "allEvents ?E [hnl_series, hnl_override] = Inr [RRuleEvent ''Standup'' ''ics::series-1::2024-01-02::recurring'' ''RRULE:FREQ=WEEKLY;BYDAY=MO'' [''2024-01-09''] ''2024-01-02'' False (Some ''17:00'') (Some ''18:00''), ?ov]" by code_simp
  from C4_override_merged_and_kept [OF bases ovs x r c s b rr] obtain b' where
    "map_of (reconcile (fromEntries [(''series-1'', ?b)]) [(''series-1'', ?ov)]) (uid hnl_override) = Some b'"
    "date ?ov \<in> set (skipDates b')" by blast
  with u a show ?thesis by auto
qed

text \<open>
  C4 as stated fails in two ways. An override that carries a rule of its own converts to
  a recurring event: its date is not added to the skipDates of the base event and it is
  not a single-occurrence record. Two base events with the uids 2 and 1, met in this
  order, come out in the order 1, 2.
\<close>

theorem C4_counterexample:
  "allEvents (ref_env (Inl ParserError)) [hnl_series, rec_override] =
     Inr [RRuleEvent ''Standup'' ''ics::series-1::2024-01-02::recurring'' ''RRULE:FREQ=WEEKLY;BYDAY=MO'' [] ''2024-01-02'' False (Some ''17:00'') (Some ''18:00''),
          RRuleEvent ''Standup'' ''ics::series-1::2024-01-09::recurring'' ''RRULE:FREQ=WEEKLY;BYDAY=TU'' [] ''2024-01-09'' False (Some ''16:00'') (Some ''17:00'')]
   \<and> allEvents (ref_env (Inl ParserError)) [event_2, event_1] =
     Inr [SingleEvent ''ics::1::2024-01-09::single'' ''Standup'' ''2024-01-09'' None False (Some ''16:00'') (Some ''17:00''),
          SingleEvent ''ics::2::2024-01-02::single'' ''Standup'' ''2024-01-02'' None False (Some ''17:00'') (Some ''18:00'')]"
  by code_simp

text \<open>
  C6, as the code has it. For every override component that converts and whose uid
  matches no base event: reconciliation leaves the base events as they are without the
  overrides of that uid, the conversion ends with a result and not with an error, and the
  override is still in the result as a record of its own.
\<close>

theorem C6_orphan_kept_without_merge:
  assumes bases: "traverse (keyed E) (filter (\<lambda>e. recurrenceId e = None) events) = Inr bases"
    and ovs: "traverse (keyed E) (filter (\<lambda>e. recurrenceId e \<noteq> None) events) = Inr ovs"
    and x: "x \<in> set events" "recurrenceId x \<noteq> None" "icsToOFC E x = Inr ov"
    and orphan: "uid x \<notin> set (map fst bases)"
  shows "reconcile (fromEntries bases) ovs
           = reconcile (fromEntries bases) (filter (\<lambda>p. fst p \<noteq> uid x) ovs)
         \<and> allEvents E events =
             Inr (object_values (reconcile (fromEntries bases) (filter (\<lambda>p. fst p \<noteq> uid x) ovs))
                  @ map snd ovs)
         \<and> ov \<in> set (map snd ovs)"
proof -
  have "uid x \<notin> set (map fst (fromEntries bases))"
    using orphan fromEntries_keys [of bases] by simp
  from reconcile_orphan [OF this, of ovs] have 1:
    "reconcile (fromEntries bases) ovs
       = reconcile (fromEntries bases) (filter (\<lambda>p. fst p \<noteq> uid x) ovs)" by simp
  from x(1,2) have "x \<in> set (filter (\<lambda>e. recurrenceId e \<noteq> None) events)" by simp
  from traverse_keyed_member [OF ovs this x(3)] have 3: "ov \<in> set (map snd ovs)" by force
  from allEvents_Inr [OF bases ovs] 1 3 show ?thesis by simp
qed

text \<open>A run of C6: the override of series-1 next to the base event series-3.\<close>

theorem C6_orphan_kept_without_merge_witness:
  "allEvents (ref_env (Inl ParserError)) [utc_series, hnl_override] =
     Inr [RRuleEvent ''Review'' ''ics::series-3::2024-01-02::recurring'' ''RRULE:FREQ=WEEKLY;BYDAY=SU,SA'' [] ''2024-01-02'' False (Some ''05:00'') (Some ''06:00''),
          SingleEvent ''ics::series-1::2024-01-09::single'' ''Standup'' ''2024-01-09'' None False (Some ''16:00'') (Some ''17:00'')]
   \<and> reconcile (fromEntries [(''series-3'', RRuleEvent ''Review'' ''ics::series-3::2024-01-02::recurring'' ''RRULE:FREQ=WEEKLY;BYDAY=SU,SA'' [] ''2024-01-02'' False (Some ''05:00'') (Some ''06:00''))]) [(''series-1'', SingleEvent ''ics::series-1::2024-01-09::single'' ''Standup'' ''2024-01-09'' None False (Some ''16:00'') (Some ''17:00''))]
       = reconcile (fromEntries [(''series-3'', RRuleEvent ''Review'' ''ics::series-3::2024-01-02::recurring'' ''RRULE:FREQ=WEEKLY;BYDAY=SU,SA'' [] ''2024-01-02'' False (Some ''05:00'') (Some ''06:00''))]) []"
proof -
  let ?E = "ref_env (Inl ParserError)"
  let ?b = "RRuleEvent ''Review'' ''ics::series-3::2024-01-02::recurring'' ''RRULE:FREQ=WEEKLY;BYDAY=SU,SA'' [] ''2024-01-02'' False (Some ''05:00'') (Some ''06:00'')"
  let ?ov = "SingleEvent ''ics::series-1::2024-01-09::single'' ''Standup'' ''2024-01-09'' None False (Some ''16:00'') (Some ''17:00'')"
  have bases: "traverse (keyed ?E) (filter (\<lambda>e. recurrenceId e = None) [utc_series, hnl_override])
                 = Inr [(''series-3'', ?b)]" by code_simp
  have ovs: "traverse (keyed ?E) (filter (\<lambda>e. recurrenceId e \<noteq> None) [utc_series, hnl_override])
                 = Inr [(''series-1'', ?ov)]" by code_simp
  have x: "hnl_override \<in> set [utc_series, hnl_override]" by simp
  have r: "recurrenceId hnl_override \<noteq> None" by code_simp
  have c: "icsToOFC ?E hnl_override = Inr ?ov" by code_simp
  have o: "uid hnl_override \<notin> set (map fst [(''series-3'', ?b)])" by code_simp
  have u: "uid hnl_override = ''series-1''" by code_simp
  have a: "allEvents ?E [utc_series, hnl_override] = Inr [?b, ?ov]" by code_simp
  from C6_orphan_kept_without_merge [OF bases ovs x r c o] u a show ?thesis by simp
qed

text \<open>
  C6 as stated fails in its last part: a calendar that holds nothing but an override is
  converted to that override's single event, which is not dropped.
\<close>

theorem C6_counterexample:
  "fst (getEventsFromICS (ref_env (Inr \<lparr>vtimezones = [], vevents = [\<lambda>reg. hnl_override]\<rparr>))
          Map.empty ''BEGIN:VCALENDAR'') =
     Inr [SingleEvent ''ics::series-1::2024-01-09::single'' ''Standup'' ''2024-01-09'' None False (Some ''16:00'') (Some ''17:00'')]"
  by code_simp

lemma foldl_pushSkipDate_rrule:
  "foldl pushSkipDate (RRuleEvent t i r sk sd a st et) ds = RRuleEvent t i r (sk @ ds) sd a st et"
  by (induction ds arbitrary: sk) (simp_all add: pushSkipDate_def)

text \<open>
  C9, as the code has it. When several base components share a uid, the one met last
  becomes the base event of that uid: the base events of the result have pairwise
  distinct uids, which are the uids of the base components, so the earlier ones are not
  in the result and receive nothing. When that last base event is a recurring one, it is
  in the result with its skipDates extended by the dates of exactly those overrides of
  the uid that converted to single events, in their order, and with nothing else
  changed; an override that converted to a recurring event adds nothing. When that last
  base event is a single one, it is in the result unchanged and no override is merged.
\<close>

theorem C9_last_base_wins:
  assumes bases: "traverse (keyed E) (filter (\<lambda>e. recurrenceId e = None) events) = Inr bases"
    and ovs: "traverse (keyed E) (filter (\<lambda>e. recurrenceId e \<noteq> None) events) = Inr ovs"
    and last: "bases = earlier @ (u, b) # later" "u \<notin> set (map fst later)"
  shows "allEvents E events =
           Inr (object_values (reconcile (fromEntries bases) ovs) @ map snd ovs)
         \<and> object_values (reconcile (fromEntries bases) ovs)
             = map snd (ownEntries (reconcile (fromEntries bases) ovs))
         \<and> distinct (map fst (ownEntries (reconcile (fromEntries bases) ovs)))
         \<and> set (map fst (ownEntries (reconcile (fromEntries bases) ovs))) = set (map fst bases)
         \<and> (\<forall>t i r sk sd a st et. b = RRuleEvent t i r sk sd a st et \<longrightarrow>
               map_of (ownEntries (reconcile (fromEntries bases) ovs)) u
                 = Some (RRuleEvent t i r
                     (sk @ map date (filter is_single (map snd (filter (\<lambda>p. fst p = u) ovs))))
                     sd a st et))
         \<and> (is_single b \<longrightarrow>
               map_of (ownEntries (reconcile (fromEntries bases) ovs)) u = Some b)"
proof -
  let ?R = "reconcile (fromEntries bases) ovs"
  have d: "distinct (map fst ?R)"
    by (simp add: reconcile_keys fromEntries_distinct)
  have p: "set (ownEntries ?R) = set ?R" by (rule set_ownEntries)
  have l: "length (ownEntries ?R) = length ?R" by (rule length_ownEntries)
  have 3: "distinct (map fst (ownEntries ?R))"
  proof -
    have "set (map fst (ownEntries ?R)) = set (map fst ?R)" using p by simp
    moreover have "length (map fst (ownEntries ?R)) = length (map fst ?R)" using l by simp
    ultimately show ?thesis using d by (metis card_distinct distinct_card)
  qed
  have k: "set (map fst ?R) = set (map fst (fromEntries bases))"
    by (simp only: reconcile_keys)
  have 4: "set (map fst (ownEntries ?R)) = set (map fst bases)"
    using p k fromEntries_keys [of bases] by simp
  have "map_of (ownEntries ?R) = map_of ?R"
    using map_of_inject_set [OF 3 d] p by simp
  moreover have "map_of (rev bases) u = Some b"
    using last by (simp add: map_of_eq_None_iff [THEN iffD2] map_add_def split: option.splits)
  ultimately have 5: "map_of (ownEntries ?R) u = Some (foldl pushSkipDate b (mergedDates u ovs))"
    by (simp add: reconcile_map_of fromEntries_map_of)
  have 6: "map_of (ownEntries ?R) u
             = Some (RRuleEvent t i r
                 (sk @ map date (filter is_single (map snd (filter (\<lambda>p. fst p = u) ovs))))
                 sd a st et)"
    if "b = RRuleEvent t i r sk sd a st et" for t i r sk sd a st et
    using 5 that by (simp add: foldl_pushSkipDate_rrule mergedDates_def)
  have 7: "map_of (ownEntries ?R) u = Some b" if "is_single b"
  proof -
    from that have "\<not> is_rrule b" by (cases b) simp_all
    with 5 show ?thesis by (simp add: foldl_pushSkipDate_single)
  qed
  from allEvents_Inr [OF bases ovs] 3 4 6 7 show ?thesis
    by (simp add: object_values_def)
qed

text \<open>
  A run of C9: two recurring base components with the uid series-1 and one override that
  is a single event; the second base event receives the date, the first is gone.
\<close>

theorem C9_last_base_wins_witness:
  "allEvents (ref_env (Inl ParserError)) [hnl_series, hnl_series_again, hnl_override] =
     Inr [RRuleEvent ''Standup'' ''ics::series-1::2024-01-03::recurring'' ''RRULE:FREQ=WEEKLY;BYDAY=TU'' [''2024-01-09''] ''2024-01-03'' False (Some ''17:00'') (Some ''18:00''),
          SingleEvent ''ics::series-1::2024-01-09::single'' ''Standup'' ''2024-01-09'' None False (Some ''16:00'') (Some ''17:00'')]
   \<and> map_of (ownEntries (reconcile (fromEntries
         [(''series-1'', RRuleEvent ''Standup'' ''ics::series-1::2024-01-02::recurring'' ''RRULE:FREQ=WEEKLY;BYDAY=MO'' [] ''2024-01-02'' False (Some ''17:00'') (Some ''18:00'')),
          (''series-1'', RRuleEvent ''Standup'' ''ics::series-1::2024-01-03::recurring'' ''RRULE:FREQ=WEEKLY;BYDAY=TU'' [] ''2024-01-03'' False (Some ''17:00'') (Some ''18:00''))])
         [(''series-1'', SingleEvent ''ics::series-1::2024-01-09::single'' ''Standup'' ''2024-01-09'' None False (Some ''16:00'') (Some ''17:00''))])) ''series-1''
       = Some (RRuleEvent ''Standup'' ''ics::series-1::2024-01-03::recurring'' ''RRULE:FREQ=WEEKLY;BYDAY=TU'' [''2024-01-09''] ''2024-01-03'' False (Some ''17:00'') (Some ''18:00''))"
proof -
  let ?E = "ref_env (Inl ParserError)"
  let ?b1 = "RRuleEvent ''Standup'' ''ics::series-1::2024-01-02::recurring'' ''RRULE:FREQ=WEEKLY;BYDAY=MO'' [] ''2024-01-02'' False (Some ''17:00'') (Some ''18:00'')"
  let ?b2 = "RRuleEvent ''Standup'' ''ics::series-1::2024-01-03::recurring'' ''RRULE:FREQ=WEEKLY;BYDAY=TU'' [] ''2024-01-03'' False (Some ''17:00'') (Some ''18:00'')"
  let ?ov = "SingleEvent ''ics::series-1::2024-01-09::single'' ''Standup'' ''2024-01-09'' None False (Some ''16:00'') (Some ''17:00'')"
  have bases: "traverse (keyed ?E) (filter (\<lambda>e. recurrenceId e = None)
                 [hnl_series, hnl_series_again, hnl_override])
                 = Inr [(''series-1'', ?b1), (''series-1'', ?b2)]" by code_simp
  have ovs: "traverse (keyed ?E) (filter (\<lambda>e. recurrenceId e \<noteq> None)
                 [hnl_series, hnl_series_again, hnl_override])
                 = Inr [(''series-1'', ?ov)]" by code_simp
  have l: "[(''series-1'', ?b1), (''series-1'', ?b2)] = [(''series-1'', ?b1)] @ (''series-1'', ?b2) # []"
    by simp
  have n: "''series-1'' \<notin> set (map fst ([] :: (string \<times> OFCEvent) list))" by simp
  have a: "allEvents ?E [hnl_series, hnl_series_again, hnl_override] = Inr [RRuleEvent ''Standup'' ''ics::series-1::2024-01-03::recurring'' ''RRULE:FREQ=WEEKLY;BYDAY=TU'' [''2024-01-09''] ''2024-01-03'' False (Some ''17:00'') (Some ''18:00''), ?ov]"
    by code_simp
  from C9_last_base_wins [OF bases ovs l n] have
    "map_of (ownEntries (reconcile (fromEntries [(''series-1'', ?b1), (''series-1'', ?b2)])
        [(''series-1'', ?ov)])) ''series-1''
      = Some (RRuleEvent ''Standup'' ''ics::series-1::2024-01-03::recurring''
          ''RRULE:FREQ=WEEKLY;BYDAY=TU''
          ([] @ map date (filter is_single (map snd (filter (\<lambda>p. fst p = ''series-1'')
             [(''series-1'', ?ov)]))))
          ''2024-01-03'' False (Some ''17:00'') (Some ''18:00''))"
    by blast
  with a show ?thesis by simp
qed

text \<open>
  C9 as stated fails in its last part. With two base components of the uid series-1 and
  an override of that uid that carries a rule of its own, the last base event is in the
  result with no date added. With a last base component that has no rule, the base event
  is a single one and the date of the override is merged nowhere.
\<close>

theorem C9_counterexample:
  "allEvents (ref_env (Inl ParserError)) [hnl_series, hnl_series_again, rec_override] =
     Inr [RRuleEvent ''Standup'' ''ics::series-1::2024-01-03::recurring'' ''RRULE:FREQ=WEEKLY;BYDAY=TU'' [] ''2024-01-03'' False (Some ''17:00'') (Some ''18:00''),
          RRuleEvent ''Standup'' ''ics::series-1::2024-01-09::recurring'' ''RRULE:FREQ=WEEKLY;BYDAY=TU'' [] ''2024-01-09'' False (Some ''16:00'') (Some ''17:00'')]
   \<and> allEvents (ref_env (Inl ParserError)) [hnl_series, single_again, hnl_override] =
     Inr [SingleEvent ''ics::series-1::2024-01-03::single'' ''Standup'' ''2024-01-03'' None False (Some ''17:00'') (Some ''18:00''),
          SingleEvent ''ics::series-1::2024-01-09::single'' ''Standup'' ''2024-01-09'' None False (Some ''16:00'') (Some ''17:00'')]"
  by code_simp

section \<open>Properties of the whole conversion\<close>

lemma registerAll_map_add:
  "registerAll reg tzs = reg ++ map_of (rev (map (\<lambda>tz. (tzid tz, tz)) tzs))"
proof (induction tzs arbitrary: reg)
  case Nil
  then show ?case by (simp add: registerAll_def)
next
  case (Cons tz tzs)
  let ?M = "map_of (rev (map (\<lambda>tz. (tzid tz, tz)) tzs))"
  have "registerAll reg (tz # tzs) = registerAll (register reg (tzid tz) tz) tzs"
    by (simp add: registerAll_def)
  also have "\<dots> = register reg (tzid tz) tz ++ ?M"
    by (rule Cons.IH)
  also have "\<dots> = reg ++ ([tzid tz \<mapsto> tz] ++ ?M)"
    by (auto simp: register_def fun_eq_iff map_add_def split: option.splits)
  also have "[tzid tz \<mapsto> tz] ++ ?M = map_of (rev (map (\<lambda>tz. (tzid tz, tz)) (tz # tzs)))"
    by simp
  finally show ?case .
qed

lemma registerAll_twice: "registerAll (registerAll reg tzs) tzs = registerAll reg tzs"
  by (auto simp: registerAll_map_add fun_eq_iff map_add_def split: option.splits)

lemma convertComponent_twice:
  "convertComponent E (snd (convertComponent E reg c)) c = convertComponent E reg c"
  by (simp add: convertComponent_def Let_def registerAll_twice split: sum.splits)

lemma getEventsFromICS_twice:
  "getEventsFromICS E (snd (getEventsFromICS E reg text)) text = getEventsFromICS E reg text"
  by (simp add: getEventsFromICS_def convertComponent_twice split: sum.splits)

text \<open>
  C8. Converting a text a second time, with the zone table as the first conversion left
  it, gives the same result as the first time, events, fields and order alike, and
  leaves the same zone table.
\<close>

theorem C8_same_output_twice:
  "fst (getEventsFromICS E (snd (getEventsFromICS E reg text)) text)
     = fst (getEventsFromICS E reg text)
   \<and> snd (getEventsFromICS E (snd (getEventsFromICS E reg text)) text)
     = snd (getEventsFromICS E reg text)"
  by (simp add: getEventsFromICS_twice)

text \<open>A run of C8: the sample calendar, first with an empty zone table.\<close>

theorem C8_same_output_twice_witness:
  "fst (getEventsFromICS (ref_env (Inr sample_calendar))
          (snd (getEventsFromICS (ref_env (Inr sample_calendar)) Map.empty ''BEGIN:VCALENDAR''))
          ''BEGIN:VCALENDAR'') =
     Inr [RRuleEvent ''Standup'' ''ics::series-1::2024-01-02::recurring'' ''RRULE:FREQ=WEEKLY;BYDAY=MO'' [''2024-01-09''] ''2024-01-02'' False (Some ''17:00'') (Some ''18:00''),
          SingleEvent ''ics::series-1::2024-01-09::single'' ''Standup'' ''2024-01-09'' None False (Some ''16:00'') (Some ''17:00'')]"
proof -
  have "fst (getEventsFromICS (ref_env (Inr sample_calendar)) Map.empty ''BEGIN:VCALENDAR'') =
     Inr [RRuleEvent ''Standup'' ''ics::series-1::2024-01-02::recurring'' ''RRULE:FREQ=WEEKLY;BYDAY=MO'' [''2024-01-09''] ''2024-01-02'' False (Some ''17:00'') (Some ''18:00''),
          SingleEvent ''ics::series-1::2024-01-09::single'' ''Standup'' ''2024-01-09'' None False (Some ''16:00'') (Some ''17:00'')]" by code_simp
  with C8_same_output_twice [of "ref_env (Inr sample_calendar)" Map.empty "''BEGIN:VCALENDAR''"]
  show ?thesis by simp
qed

text \<open>
  C7. When the parser rejects the text, the call ends with that error and with no
  events. When the text parses, a VEVENT whose start or end cannot be resolved takes no
  part in the conversion: the call gives what it gives for the calendar without that
  VEVENT, so the other events are produced. When the remaining components are built,
  the call returns the built events that the validator accepts; a rejected one is left
  out and ends nothing.
\<close>

theorem C7_unresolvable_skipped_parse_error_fatal:
  "(parse E text = Inl err \<longrightarrow> getEventsFromICS E reg text = (Inl err, reg))
   \<and> (parse E text = Inr c \<and> vevents c = before @ v # after
        \<and> \<not> resolvable (v (registerAll reg (vtimezones c))) \<longrightarrow>
       getEventsFromICS E reg text = convertComponent E reg (c\<lparr>vevents := before @ after\<rparr>))
   \<and> (parse E text = Inr c
        \<and> allEvents E (filter resolvable
              (map (\<lambda>vevent. vevent (registerAll reg (vtimezones c))) (vevents c))) = Inr all \<longrightarrow>
       fst (getEventsFromICS E reg text) = Inr (List.map_filter (validateEvent E) all))"
  by (simp add: getEventsFromICS_def convertComponent_def Let_def)

text \<open>
  A run of C7: a parser error, and the sample calendar, whose second VEVENT has no
  DTSTART.
\<close>

theorem C7_unresolvable_skipped_parse_error_fatal_witness:
  "getEventsFromICS (ref_env (Inl ParserError)) Map.empty ''BEGIN:VEVENT'' = (Inl ParserError, Map.empty)
   \<and> fst (getEventsFromICS (ref_env (Inr sample_calendar)) Map.empty ''BEGIN:VCALENDAR'')
       = Inr [RRuleEvent ''Standup'' ''ics::series-1::2024-01-02::recurring'' ''RRULE:FREQ=WEEKLY;BYDAY=MO'' [''2024-01-09''] ''2024-01-02'' False (Some ''17:00'') (Some ''18:00''),
              SingleEvent ''ics::series-1::2024-01-09::single'' ''Standup'' ''2024-01-09'' None False (Some ''16:00'') (Some ''17:00'')]
   \<and> getEventsFromICS (ref_env (Inr sample_calendar)) Map.empty ''BEGIN:VCALENDAR''
       = convertComponent (ref_env (Inr sample_calendar)) Map.empty
           (sample_calendar\<lparr>vevents := [in_zone ''Pacific/Honolulu'' hnl_series hnl_series_unregistered]
                                         @ [\<lambda>reg. hnl_override]\<rparr>)"
proof -
  let ?E = "ref_env (Inr sample_calendar)"
  have p0: "parse (ref_env (Inl ParserError)) ''BEGIN:VEVENT'' = Inl ParserError"
    by (simp add: ref_env_def)
  have p: "parse ?E ''BEGIN:VCALENDAR'' = Inr sample_calendar"
    by (simp add: ref_env_def)
  have v: "vevents sample_calendar = [in_zone ''Pacific/Honolulu'' hnl_series hnl_series_unregistered]
             @ (\<lambda>reg. no_start) # [\<lambda>reg. hnl_override]"
    by (simp add: sample_calendar_def)
  have n: "\<not> resolvable ((\<lambda>reg. no_start) (registerAll Map.empty (vtimezones sample_calendar)))"
    by (simp add: resolvable_def no_start_def)
  have a: "fst (getEventsFromICS ?E Map.empty ''BEGIN:VCALENDAR'') =
     Inr [RRuleEvent ''Standup'' ''ics::series-1::2024-01-02::recurring'' ''RRULE:FREQ=WEEKLY;BYDAY=MO'' [''2024-01-09''] ''2024-01-02'' False (Some ''17:00'') (Some ''18:00''),
          SingleEvent ''ics::series-1::2024-01-09::single'' ''Standup'' ''2024-01-09'' None False (Some ''16:00'') (Some ''17:00'')]" by code_simp
  from C7_unresolvable_skipped_parse_error_fatal
         [of "ref_env (Inl ParserError)" "''BEGIN:VEVENT''" ParserError Map.empty]
       p0
  have 1: "getEventsFromICS (ref_env (Inl ParserError)) Map.empty ''BEGIN:VEVENT'' = (Inl ParserError, Map.empty)"
    by blast
  from C7_unresolvable_skipped_parse_error_fatal
         [of ?E "''BEGIN:VCALENDAR''" _ Map.empty sample_calendar
             "[in_zone ''Pacific/Honolulu'' hnl_series hnl_series_unregistered]"
             "\<lambda>reg. no_start" "[\<lambda>reg. hnl_override]"]
       p v n
  have 2: "getEventsFromICS ?E Map.empty ''BEGIN:VCALENDAR''
       = convertComponent ?E Map.empty
           (sample_calendar\<lparr>vevents := [in_zone ''Pacific/Honolulu'' hnl_series hnl_series_unregistered]
                                         @ [\<lambda>reg. hnl_override]\<rparr>)"
    by blast
  from 1 a 2 show ?thesis by blast
qed

text \<open>
  C5, as the code has it. The identifier of a converted single event is ics:: followed
  by the uid, its date field and single, joined by ::. The identifier of a converted
  recurring event whose start instant falls, in the canonical zone, on the date of its
  startDate field is ics:: followed by the uid, that date and recurring, joined by ::.
  Converting the same text again gives the same events, hence the same identifiers.
\<close>

theorem C5_identifiers:
  assumes "icsToOFC E input = Inr ev" "startDate input = Some sd"
  shows "(is_single ev \<longrightarrow> ofc_id ev = ''ics::'' @ uid input @ ''::'' @ date ev @ ''::single'')
       \<and> (is_rrule ev \<and> getDate E sd = ofc_startDate ev \<longrightarrow>
            ofc_id ev = ''ics::'' @ uid input @ ''::'' @ ofc_startDate ev @ ''::recurring'')
       \<and> fst (getEventsFromICS E (snd (getEventsFromICS E reg text)) text)
           = fst (getEventsFromICS E reg text)"
  using icsToOFC_id [OF assms] by (auto simp: getEventsFromICS_twice)

text \<open>A run of C5: the Honolulu series and its override.\<close>

theorem C5_identifiers_witness:
  "icsToOFC (ref_env (Inl ParserError)) hnl_series = Inr (RRuleEvent ''Standup'' ''ics::series-1::2024-01-02::recurring'' ''RRULE:FREQ=WEEKLY;BYDAY=MO'' [] ''2024-01-02'' False (Some ''17:00'') (Some ''18:00''))
   \<and> getDate (ref_env (Inl ParserError)) (hnl ''2024-01-01T22:00:00'' 1704182400) = ''2024-01-02''
   \<and> ofc_id (RRuleEvent ''Standup'' ''ics::series-1::2024-01-02::recurring'' ''RRULE:FREQ=WEEKLY;BYDAY=MO'' [] ''2024-01-02'' False (Some ''17:00'') (Some ''18:00'')) = ''ics::'' @ ''series-1'' @ ''::'' @ ''2024-01-02'' @ ''::recurring''
   \<and> icsToOFC (ref_env (Inl ParserError)) hnl_override = Inr (SingleEvent ''ics::series-1::2024-01-09::single'' ''Standup'' ''2024-01-09'' None False (Some ''16:00'') (Some ''17:00''))
   \<and> ofc_id (SingleEvent ''ics::series-1::2024-01-09::single'' ''Standup'' ''2024-01-09'' None False (Some ''16:00'') (Some ''17:00'')) = ''ics::'' @ ''series-1'' @ ''::'' @ ''2024-01-09'' @ ''::single''"
proof -
  let ?E = "ref_env (Inl ParserError)"
  have c: "icsToOFC ?E hnl_series = Inr (RRuleEvent ''Standup'' ''ics::series-1::2024-01-02::recurring'' ''RRULE:FREQ=WEEKLY;BYDAY=MO'' [] ''2024-01-02'' False (Some ''17:00'') (Some ''18:00''))" by code_simp
  have s: "startDate hnl_series = Some (hnl ''2024-01-01T22:00:00'' 1704182400)" by code_simp
  have g: "getDate ?E (hnl ''2024-01-01T22:00:00'' 1704182400) = ''2024-01-02''" by code_simp
  have c2: "icsToOFC ?E hnl_override = Inr (SingleEvent ''ics::series-1::2024-01-09::single'' ''Standup'' ''2024-01-09'' None False (Some ''16:00'') (Some ''17:00''))" by code_simp
  have s2: "startDate hnl_override = Some (hnl ''2024-01-08T21:00:00'' 1704783600)" by code_simp
  have u: "uid hnl_series = ''series-1''" "uid hnl_override = ''series-1''" by code_simp+
  from C5_identifiers [OF c s] C5_identifiers [OF c2 s2] g c c2 u show ?thesis by simp
qed

text \<open>
  C5 as stated fails for the series without TZID that starts at 16:00: its identifier
  begins with ics::, and the date in it, taken from the epoch seconds, is 2024-01-02,
  while the startDate field, taken from the timestamp, is 2024-01-01.
\<close>

theorem C5_counterexample:
  "icsToOFC (ref_env (Inl ParserError)) float_series = Inr (RRuleEvent ''Standup'' ''ics::series-2::2024-01-02::recurring'' ''RRULE:FREQ=WEEKLY;BYDAY=MO'' [] ''2024-01-01'' False (Some ''16:00'') (Some ''17:00''))
   \<and> uid float_series = ''series-2''
   \<and> ofc_id (RRuleEvent ''Standup'' ''ics::series-2::2024-01-02::recurring'' ''RRULE:FREQ=WEEKLY;BYDAY=MO'' [] ''2024-01-01'' False (Some ''16:00'') (Some ''17:00'')) \<noteq> ''series-2'' @ ''::'' @ ofc_startDate (RRuleEvent ''Standup'' ''ics::series-2::2024-01-02::recurring'' ''RRULE:FREQ=WEEKLY;BYDAY=MO'' [] ''2024-01-01'' False (Some ''16:00'') (Some ''17:00'')) @ ''::recurring''
   \<and> ofc_id (RRuleEvent ''Standup'' ''ics::series-2::2024-01-02::recurring'' ''RRULE:FREQ=WEEKLY;BYDAY=MO'' [] ''2024-01-01'' False (Some ''16:00'') (Some ''17:00'')) \<noteq> ''ics::'' @ ''series-2'' @ ''::'' @ ofc_startDate (RRuleEvent ''Standup'' ''ics::series-2::2024-01-02::recurring'' ''RRULE:FREQ=WEEKLY;BYDAY=MO'' [] ''2024-01-01'' False (Some ''16:00'') (Some ''17:00'')) @ ''::recurring''"
  by code_simp

end
